theory Spec2Isabelle
  imports Complex_Main "HOL-Library.Log_Nat" "HOL-Library.AList"
begin

section \<open>JavaScript numbers\<close>

text \<open>
  A JavaScript number is an IEEE 754 double: a finite value, one of the two infinities,
  or NaN. A finite double is kept as the rational number it denotes, and every
  arithmetic operation rounds its exact result to the nearest double, ties to the even
  significand, as the standard prescribes. The negative zero is not told apart from
  zero; none of the operations used here distinguishes them.
\<close>

datatype jsnum = Fin rat | PInf | NInf | NaN

text \<open>Rounding a rational to the nearest integer, a tie going to the even one.\<close>

definition rhe :: "rat \<Rightarrow> int" where
  "rhe x =
     (let f = \<lfloor>x\<rfloor>; r = x - of_int f
      in if r < 1 / 2 then f else if 1 / 2 < r then f + 1 else if even f then f else f + 1)"

text \<open>
  For \<open>x > 0\<close>, \<open>ilog2 x\<close> is the exponent \<open>k\<close> with \<open>2 powi k \<le> x < 2 powi (k + 1)\<close>,
  found from the bit lengths of numerator and denominator. \<open>expo\<close> is the exponent of the binade a double
  of that size lies in: subnormal numbers share the exponent \<open>-1022\<close>.
\<close>

definition ilog2 :: "rat \<Rightarrow> int" where
  "ilog2 x =
     (let d = bitlen (fst (quotient_of x)) - bitlen (snd (quotient_of x))
      in if 2 powi d \<le> x then d else d - 1)"

definition expo :: "rat \<Rightarrow> int" where
  "expo a = max (ilog2 a) (- 1022)"

text \<open>
  The nearest double to a magnitude \<open>a \<ge> 0\<close>, were the exponent unbounded above: the
  doubles of exponent \<open>e\<close> are the multiples of \<open>2 powi (e - 52)\<close>.
\<close>

definition mag :: "rat \<Rightarrow> rat" where
  "mag a = of_int (rhe (a / 2 powi (expo a - 52))) * 2 powi (expo a - 52)"

text \<open>Rounding to double: a result of magnitude \<open>2 powi 1024\<close> or more is an infinity.\<close>

definition round_double :: "rat \<Rightarrow> jsnum" where
  "round_double x =
     (let y = mag \<bar>x\<bar>
      in if 2 powi 1024 \<le> y then (if 0 < x then PInf else NInf)
         else Fin (if 0 < x then y else - y))"

text \<open>The rationals that are doubles: those that rounding keeps.\<close>

definition is_double :: "rat \<Rightarrow> bool" where
  "is_double x = (round_double x = Fin x)"

text \<open>\<open>Number.isFinite\<close> on a number.\<close>

fun isFinite :: "jsnum \<Rightarrow> bool" where
  "isFinite (Fin _) = True"
| "isFinite _ = False"

text \<open>The operator \<open><=\<close>: every comparison with NaN is false.\<close>

fun js_le :: "jsnum \<Rightarrow> jsnum \<Rightarrow> bool" where
  "js_le NaN _ = False"
| "js_le _ NaN = False"
| "js_le NInf _ = True"
| "js_le _ PInf = True"
| "js_le (Fin a) (Fin b) = (a \<le> b)"
| "js_le PInf _ = False"
| "js_le _ NInf = False"

text \<open>The operator \<open><\<close>.\<close>

fun js_less :: "jsnum \<Rightarrow> jsnum \<Rightarrow> bool" where
  "js_less NaN _ = False"
| "js_less _ NaN = False"
| "js_less (Fin a) (Fin b) = (a < b)"
| "js_less PInf _ = False"
| "js_less _ NInf = False"
| "js_less NInf _ = True"
| "js_less _ PInf = True"

text \<open>The operators \<open>+\<close>, \<open>-\<close> and \<open>*\<close> on numbers, and unary minus.\<close>

fun js_add :: "jsnum \<Rightarrow> jsnum \<Rightarrow> jsnum" where
  "js_add NaN _ = NaN"
| "js_add _ NaN = NaN"
| "js_add (Fin a) (Fin b) = round_double (a + b)"
| "js_add PInf NInf = NaN"
| "js_add NInf PInf = NaN"
| "js_add PInf _ = PInf"
| "js_add _ PInf = PInf"
| "js_add NInf _ = NInf"
| "js_add _ NInf = NInf"

fun js_neg :: "jsnum \<Rightarrow> jsnum" where
  "js_neg (Fin a) = Fin (- a)"
| "js_neg PInf = NInf"
| "js_neg NInf = PInf"
| "js_neg NaN = NaN"

definition js_sub :: "jsnum \<Rightarrow> jsnum \<Rightarrow> jsnum" where
  "js_sub a b = js_add a (js_neg b)"

fun js_mul :: "jsnum \<Rightarrow> jsnum \<Rightarrow> jsnum" where
  "js_mul NaN _ = NaN"
| "js_mul _ NaN = NaN"
| "js_mul (Fin a) (Fin b) = round_double (a * b)"
| "js_mul (Fin a) PInf = (if a = 0 then NaN else if 0 < a then PInf else NInf)"
| "js_mul (Fin a) NInf = (if a = 0 then NaN else if 0 < a then NInf else PInf)"
| "js_mul PInf (Fin b) = (if b = 0 then NaN else if 0 < b then PInf else NInf)"
| "js_mul NInf (Fin b) = (if b = 0 then NaN else if 0 < b then NInf else PInf)"
| "js_mul PInf PInf = PInf"
| "js_mul PInf NInf = NInf"
| "js_mul NInf PInf = NInf"
| "js_mul NInf NInf = PInf"

text \<open>\<open>Math.max\<close> of two numbers: NaN when either is NaN.\<close>

definition js_max :: "jsnum \<Rightarrow> jsnum \<Rightarrow> jsnum" where
  "js_max a b = (if a = NaN \<or> b = NaN then NaN else if js_le a b then b else a)"

text \<open>Truthiness of a number: \<open>0\<close> and NaN are falsy.\<close>

definition js_truthy :: "jsnum \<Rightarrow> bool" where
  "js_truthy n = (n \<noteq> Fin 0 \<and> n \<noteq> NaN)"

section \<open>JavaScript values\<close>

text \<open>
  What \<open>globalState.get\<close> can return: \<open>undefined\<close> when nothing is stored, or a JSON
  value. An array is an object whose kind is \<open>Array\<close>, its elements being the
  properties \<open>0\<close>, \<open>1\<close>, ... The value \<open>JConcat v d\<close> is the string that \<open>v + d\<close>
  builds when \<open>v\<close> is a string, an object or an array and \<open>d\<close> a number: the text of \<open>v\<close>
  followed by the decimal text of \<open>d\<close> (\<open>'abc' + 1000\<close> is \<open>'abc1000'\<close>). Its characters
  are not computed.
\<close>

datatype objkind = Plain | Array

datatype jsval =
    JUndefined
  | JNull
  | JBool bool
  | JNum jsnum
  | JStr string
  | JObject objkind "(string \<times> jsval) list"
  | JConcat jsval jsnum

datatype jstype = TUndefined | TObject | TBoolean | TNumber | TString

text \<open>The operator \<open>typeof\<close>; \<open>typeof null\<close> is \<open>'object'\<close>.\<close>

fun typeof :: "jsval \<Rightarrow> jstype" where
  "typeof JUndefined = TUndefined"
| "typeof JNull = TObject"
| "typeof (JBool _) = TBoolean"
| "typeof (JNum _) = TNumber"
| "typeof (JStr _) = TString"
| "typeof (JObject _ _) = TObject"
| "typeof (JConcat _ _) = TString"

text \<open>
  Truthiness of a value, as \<open>!raw\<close> and \<open>||\<close> test it. The text of a number is never
  empty, so a concatenation is truthy.
\<close>

fun truthy :: "jsval \<Rightarrow> bool" where
  "truthy JUndefined = False"
| "truthy JNull = False"
| "truthy (JBool b) = b"
| "truthy (JNum n) = js_truthy n"
| "truthy (JStr s) = (s \<noteq> [])"
| "truthy (JObject _ _) = True"
| "truthy (JConcat _ _) = True"

text \<open>
  The operator \<open>+\<close> with a number on the right: \<open>undefined\<close>, \<open>null\<close> and booleans are
  converted to numbers (NaN, 0, and 0 or 1) and added; a string, an object or an array
  on the left makes it a string concatenation.
\<close>

fun js_plus :: "jsval \<Rightarrow> jsnum \<Rightarrow> jsval" where
  "js_plus JUndefined d = JNum (js_add NaN d)"
| "js_plus JNull d = JNum (js_add (Fin 0) d)"
| "js_plus (JBool b) d = JNum (js_add (Fin (if b then 1 else 0)) d)"
| "js_plus (JNum a) d = JNum (js_add a d)"
| "js_plus (JStr s) d = JConcat (JStr s) d"
| "js_plus (JObject k ps) d = JConcat (JObject k ps) d"
| "js_plus (JConcat v c) d = JConcat (JConcat v c) d"

text \<open>
  An object, as the statistics manager holds one: its kind and its own properties in
  the order of their creation. \<open>get_prop\<close> is \<open>ob[key]\<close> and \<open>set_prop\<close> is
  \<open>ob[key] = v\<close>, for keys that are neither inherited properties nor array indices: the
  keys this program uses are dates, which contain a hyphen.
\<close>

type_synonym jsobject = "objkind \<times> (string \<times> jsval) list"

definition own_props :: "jsobject \<Rightarrow> string \<rightharpoonup> jsval" where
  "own_props ob = map_of (snd ob)"

definition get_prop :: "jsobject \<Rightarrow> string \<Rightarrow> jsval" where
  "get_prop ob key = (case own_props ob key of None \<Rightarrow> JUndefined | Some v \<Rightarrow> v)"

definition set_prop :: "jsobject \<Rightarrow> string \<Rightarrow> jsval \<Rightarrow> jsobject" where
  "set_prop ob key v = (fst ob, AList.update key v (snd ob))"

fun object_of :: "jsval \<Rightarrow> jsobject" where
  "object_of (JObject kind props) = (kind, props)"
| "object_of _ = (Plain, [])"

section \<open>Constants and free functions\<close>

definition STORAGE_KEY_STATS :: string where
  "STORAGE_KEY_STATS = ''focusSession.stats''"

definition TICK_INTERVAL_MS :: jsnum where
  "TICK_INTERVAL_MS = Fin 1000"

text \<open>
  \<open>minutesToMilliseconds\<close>: a non-finite argument gives \<open>0\<close>, a finite one is
  multiplied by 60 and the product by 1000, each product rounded.
\<close>

definition minutesToMilliseconds :: "jsnum \<Rightarrow> jsnum" where
  "minutesToMilliseconds minutes =
     (if \<not> isFinite minutes then Fin 0 else js_mul (js_mul minutes (Fin 60)) (Fin 1000))"

text \<open>
  A reading of \<open>Date.now()\<close>: a whole number of milliseconds since the epoch, which
  ECMAScript keeps within 8.64e15 of it. \<open>at_ms t\<close> is the reading \<open>t\<close>, for \<open>t\<close> in
  that range.
\<close>

typedef instant = "{t :: int. - 8640000000000000 \<le> t \<and> t \<le> 8640000000000000}"
  morphisms epoch_ms Abs_instant
  by (intro exI [of _ 0]) simp

setup_lifting type_definition_instant

lift_definition at_ms :: "int \<Rightarrow> instant"
  is "\<lambda>t. max (- 8640000000000000) (min 8640000000000000 t)"
  by simp

definition Date_now :: "instant \<Rightarrow> jsnum" where
  "Date_now t = Fin (of_int (epoch_ms t))"

text \<open>
  The local calendar fields that \<open>getTodayKey\<close> reads from \<open>new Date()\<close>:
  \<open>getFullYear()\<close>, \<open>getMonth()\<close> (January is 0) and \<open>getDate()\<close>.
\<close>

record local_date =
  fullYear :: int
  month :: nat
  date :: nat

definition digit_char :: "nat \<Rightarrow> char" where
  "digit_char d = ''0123456789'' ! d"

text \<open>
  \<open>String(n)\<close>, the decimal digits of a number: \<open>digits_acc\<close> puts the digits of a
  natural number in front of those already produced.
\<close>

fun digits_acc :: "nat \<Rightarrow> string \<Rightarrow> string" where
  "digits_acc n acc =
     (if n < 10 then digit_char n # acc
      else digits_acc (n div 10) (digit_char (n mod 10) # acc))"

declare digits_acc.simps [simp del]

definition String_nat :: "nat \<Rightarrow> string" where
  "String_nat n = digits_acc n []"

definition String_int :: "int \<Rightarrow> string" where
  "String_int i = (if 0 \<le> i then String_nat (nat i) else CHR ''-'' # String_nat (nat (- i)))"

text \<open>\<open>s.padStart(n, '0')\<close>.\<close>

definition padStart :: "string \<Rightarrow> nat \<Rightarrow> string" where
  "padStart s n = replicate (n - length s) (CHR ''0'') @ s"

definition getTodayKey :: "local_date \<Rightarrow> string" where
  "getTodayKey now =
     (let year = fullYear now;
          mon = padStart (String_nat (month now + 1)) 2;
          day = padStart (String_nat (date now)) 2
      in String_int year @ ''-'' @ mon @ ''-'' @ day)"

section \<open>StatsManager\<close>

text \<open>
  \<open>_loadStats\<close>, on the value \<open>raw\<close> that \<open>globalState.get\<close> returned: the empty
  object unless \<open>raw\<close> is truthy and of type \<open>'object'\<close>, and \<open>raw\<close> itself otherwise.
  Then \<open>raw\<close> is an object or an array (\<open>null\<close>, the other value of that type, is
  falsy), so the second equation of \<open>object_of\<close> is never used. No operation of the
  source function can raise, so there is no error result.
\<close>

definition loadStats :: "jsval \<Rightarrow> jsobject" where
  "loadStats raw =
     (if \<not> truthy raw \<or> typeof raw \<noteq> TObject then (Plain, []) else object_of raw)"

text \<open>
  The manager holds the object \<open>_stats\<close> that \<open>_loadStats\<close> returned, whatever its
  contents. The field \<open>updates\<close> lists the calls of \<open>globalState.update\<close> issued so
  far, each with the storage key and the object handed over at the call.
\<close>

record stats_manager =
  stats :: jsobject
  updates :: "(string \<times> jsobject) list"

text \<open>The expression \<open>this._stats[key] || 0\<close>.\<close>

definition bucket_or_zero :: "jsobject \<Rightarrow> string \<Rightarrow> jsval" where
  "bucket_or_zero ob key =
     (let v = get_prop ob key in if truthy v then v else JNum (Fin 0))"

definition saveStats :: "stats_manager \<Rightarrow> stats_manager" where
  "saveStats sm = sm\<lparr>updates := updates sm @ [(STORAGE_KEY_STATS, stats sm)]\<rparr>"

text \<open>
  \<open>addFocusedMilliseconds\<close>. The argument \<open>today\<close> is the date \<open>getTodayKey\<close> reads,
  \<open>updateOk\<close> tells whether the promise of \<open>globalState.update\<close> is fulfilled. The
  result is the new manager and whether the returned promise is fulfilled
  (\<open>Promise.resolve()\<close> always is).
\<close>

definition addFocusedMilliseconds ::
  "jsnum \<Rightarrow> local_date \<Rightarrow> bool \<Rightarrow> stats_manager \<Rightarrow> stats_manager \<times> bool" where
  "addFocusedMilliseconds deltaMs today updateOk sm =
     (if \<not> isFinite deltaMs \<or> js_le deltaMs (Fin 0) then (sm, True)
      else
        let key = getTodayKey today;
            prev = bucket_or_zero (stats sm) key;
            sm1 = sm\<lparr>stats := set_prop (stats sm) key (js_plus prev deltaMs)\<rparr>
        in (saveStats sm1, updateOk))"

definition getTodayMilliseconds :: "local_date \<Rightarrow> stats_manager \<Rightarrow> jsval" where
  "getTodayMilliseconds today sm = bucket_or_zero (stats sm) (getTodayKey today)"

section \<open>FocusSessionManager\<close>

text \<open>
  The status bar text is kept symbolically: \<open>FocusText ms r\<close> is the text built from
  \<open>formatDuration(ms)\<close> and the running flag \<open>r\<close>; the tooltip is set together with
  the text and is determined by it. The user-visible messages and the console log are
  one list of outputs, named by their content.
\<close>

datatype status_text = NoText | NotStartedText | FocusText jsnum bool | FinishedText

record status_bar =
  bar_text :: status_text
  visible :: bool
  disposed :: bool

datatype host_output =
    WarnDurationNotPositive
  | InfoNotStarted
  | InfoStopped
  | InfoFinished
  | ConsoleErrorNotSaved

text \<open>
  The fields of the manager, and the part of the host it acts on: the set of armed
  intervals (\<open>setInterval\<close> adds a fresh handle, \<open>clearInterval\<close> removes one) and the
  outputs emitted so far.
\<close>

record manager =
  statsManager :: stats_manager
  statusBarItem :: status_bar
  timer :: "nat option"
  remainingMs :: jsnum
  running :: bool
  lastTickTime :: jsnum
  intervals :: "nat set"
  next_handle :: nat
  outputs :: "host_output list"

text \<open>The constructors, on the value \<open>raw\<close> that \<open>globalState.get\<close> returns.\<close>

definition initial :: "jsval \<Rightarrow> manager" where
  "initial raw =
     \<lparr>statsManager = \<lparr>stats = loadStats raw, updates = []\<rparr>,
      statusBarItem = \<lparr>bar_text = NoText, visible = False, disposed = False\<rparr>,
      timer = None, remainingMs = Fin 0, running = False, lastTickTime = Fin 0,
      intervals = {}, next_handle = 0, outputs = []\<rparr>"

definition set_text :: "status_text \<Rightarrow> manager \<Rightarrow> manager" where
  "set_text t s = s\<lparr>statusBarItem := (statusBarItem s)\<lparr>bar_text := t\<rparr>\<rparr>"

definition updateStatusBar :: "manager \<Rightarrow> manager" where
  "updateStatusBar s =
     (if js_le (remainingMs s) (Fin 0) \<and> \<not> running s then set_text NotStartedText s
      else set_text (FocusText (remainingMs s) (running s)) s)"

definition stopTimerInternal :: "bool \<Rightarrow> manager \<Rightarrow> manager" where
  "stopTimerInternal resetRemaining s =
     (let s1 = (case timer s of
                  Some h \<Rightarrow> s\<lparr>intervals := intervals s - {h}, timer := None\<rparr>
                | None \<Rightarrow> s);
          s2 = s1\<lparr>running := False\<rparr>;
          s3 = (if resetRemaining then s2\<lparr>remainingMs := Fin 0\<rparr> else s2)
      in updateStatusBar s3)"

definition setInterval :: "manager \<Rightarrow> manager" where
  "setInterval s =
     s\<lparr>timer := Some (next_handle s),
       intervals := insert (next_handle s) (intervals s),
       next_handle := Suc (next_handle s)\<rparr>"

definition startNewSession :: "jsnum \<Rightarrow> instant \<Rightarrow> manager \<Rightarrow> manager" where
  "startNewSession minutes now s =
     (let ms = minutesToMilliseconds minutes in
      if js_le ms (Fin 0) then s\<lparr>outputs := outputs s @ [WarnDurationNotPositive]\<rparr>
      else
        let s1 = stopTimerInternal False s;
            s2 = s1\<lparr>remainingMs := ms, running := True, lastTickTime := Date_now now\<rparr>;
            s3 = s2\<lparr>statusBarItem := (statusBarItem s2)\<lparr>visible := True\<rparr>\<rparr>;
            s4 = updateStatusBar s3
        in setInterval s4)"

text \<open>
  \<open>_finishSession\<close>: \<open>now\<close> is its own reading of the clock, \<open>today\<close> and \<open>updateOk\<close>
  are passed on to \<open>addFocusedMilliseconds\<close>. The handlers of the promise are run at
  once: the information message when it is fulfilled, the console error otherwise.
\<close>

definition finishSession :: "instant \<Rightarrow> local_date \<Rightarrow> bool \<Rightarrow> manager \<Rightarrow> manager" where
  "finishSession now today updateOk s =
     (let last = lastTickTime s;
          spentMs = js_max (Fin 0) (js_add (js_sub (Date_now now) last) TICK_INTERVAL_MS);
          s1 = s\<lparr>running := False\<rparr>;
          s2 = stopTimerInternal False s1;
          s3 = set_text FinishedText s2;
          r = addFocusedMilliseconds spentMs today updateOk (statsManager s3)
      in s3\<lparr>statsManager := fst r,
            outputs := outputs s3 @ [if snd r then InfoFinished else ConsoleErrorNotSaved]\<rparr>)"

text \<open>
  \<open>_onTick\<close>: \<open>now\<close> is the clock reading of the tick, \<open>nowFinish\<close> the later reading
  inside \<open>_finishSession\<close>, used only when the session finishes.
\<close>

definition onTick :: "instant \<Rightarrow> instant \<Rightarrow> local_date \<Rightarrow> bool \<Rightarrow> manager \<Rightarrow> manager" where
  "onTick now nowFinish today updateOk s =
     (if \<not> running s then s
      else
        let delta = js_sub (Date_now now) (lastTickTime s);
            s1 = s\<lparr>lastTickTime := Date_now now\<rparr>;
            s2 = s1\<lparr>remainingMs := js_sub (remainingMs s1) delta\<rparr>
        in if js_le (remainingMs s2) (Fin 0)
           then finishSession nowFinish today updateOk (updateStatusBar (s2\<lparr>remainingMs := Fin 0\<rparr>))
           else updateStatusBar s2)"

definition togglePauseOrResume :: "instant \<Rightarrow> manager \<Rightarrow> manager" where
  "togglePauseOrResume now s =
     (if js_le (remainingMs s) (Fin 0) \<and> \<not> running s
      then s\<lparr>outputs := outputs s @ [InfoNotStarted]\<rparr>
      else if running s then updateStatusBar (s\<lparr>running := False\<rparr>)
      else updateStatusBar (s\<lparr>running := True, lastTickTime := Date_now now\<rparr>))"

definition stopSession :: "bool \<Rightarrow> manager \<Rightarrow> manager" where
  "stopSession showMessage s =
     (let s1 = stopTimerInternal True s
      in if showMessage then s1\<lparr>outputs := outputs s1 @ [InfoStopped]\<rparr> else s1)"

definition dispose :: "manager \<Rightarrow> manager" where
  "dispose s =
     (let s1 = stopTimerInternal False s
      in s1\<lparr>statusBarItem := (statusBarItem s1)\<lparr>disposed := True\<rparr>\<rparr>)"

text \<open>
  The host serialises the calls into the manager. An event is one such call with the
  values it reads from the host; \<open>run\<close> applies a sequence of events in order.
\<close>

datatype event =
    Start jsnum instant
  | Tick instant instant local_date bool
  | Toggle instant
  | Stop bool
  | Dispose

fun step :: "event \<Rightarrow> manager \<Rightarrow> manager" where
  "step (Start minutes now) s = startNewSession minutes now s"
| "step (Tick now nowFinish today updateOk) s = onTick now nowFinish today updateOk s"
| "step (Toggle now) s = togglePauseOrResume now s"
| "step (Stop showMessage) s = stopSession showMessage s"
| "step Dispose s = dispose s"

fun run :: "event list \<Rightarrow> manager \<Rightarrow> manager" where
  "run [] s = s"
| "run (e # es) s = run es (step e s)"

text \<open>The ticks the host delivers every \<open>period\<close> milliseconds after time \<open>t\<close>.\<close>

fun ticks :: "nat \<Rightarrow> int \<Rightarrow> int \<Rightarrow> local_date \<Rightarrow> event list" where
  "ticks 0 t period today = []"
| "ticks (Suc n) t period today =
     Tick (at_ms (t + period)) (at_ms (t + period)) today True #
     ticks n (t + period) period today"

text \<open>
  The invariant of every state the events can reach: the remaining time is infinite, or
  a double that is not negative; the time of the last tick is zero or a clock reading.
\<close>

definition double_state :: "manager \<Rightarrow> bool" where
  "double_state s =
     ((case remainingMs s of Fin r \<Rightarrow> 0 \<le> r \<and> is_double r | PInf \<Rightarrow> True | _ \<Rightarrow> False) \<and>
      (case lastTickTime s of Fin t \<Rightarrow> \<bar>t\<bar> \<le> 8640000000000000 | _ \<Rightarrow> False))"

text \<open>
  The specification's reading of a well-formed persisted payload, "a mapping from date
  keys to numbers", as far as the values go: a plain object all of whose values are
  numbers. It is not part of the program; it only states which payloads the
  specification calls malformed. A payload that fails this test is malformed under any
  reading of the date keys.
\<close>

fun spec_mapping_to_numbers :: "jsval \<Rightarrow> bool" where
  "spec_mapping_to_numbers (JObject kind props) =
     (kind = Plain \<and> list_all (\<lambda>p. case snd p of JNum _ \<Rightarrow> True | _ \<Rightarrow> False) props)"
| "spec_mapping_to_numbers _ = False"

text \<open>
  The dates \<open>new Date()\<close> can show with a year of four digits: the month counted from
  0 and the day from 1.
\<close>

definition valid_date :: "local_date \<Rightarrow> bool" where
  "valid_date d =
     (1000 \<le> fullYear d \<and> fullYear d \<le> 9999 \<and> month d < 12 \<and> 1 \<le> date d \<and> date d \<le> 31)"

section \<open>Rounding to double\<close>

lemma rhe_of_int [simp]: "rhe (of_int n) = n"
  by (simp add: rhe_def)

lemma rhe_floor: "\<lfloor>x\<rfloor> \<le> rhe x" "rhe x \<le> \<lfloor>x\<rfloor> + 1"
  by (simp_all add: rhe_def Let_def)

lemma rhe_mono:
  assumes "x \<le> y"
  shows "rhe x \<le> rhe y"
proof (cases "\<lfloor>x\<rfloor> = \<lfloor>y\<rfloor>")
  case True
  with assms show ?thesis
    by (auto simp: rhe_def Let_def)
next
  case False
  with assms have "\<lfloor>x\<rfloor> + 1 \<le> \<lfloor>y\<rfloor>"
    using floor_mono [of x y] by linarith
  then show ?thesis
    using rhe_floor(2) [of x] rhe_floor(1) [of y] by linarith
qed

lemma pow2_pos [simp]: "(0::rat) < 2 powi k"
  by (simp add: zero_less_power_int)

lemma pow2_add: "(2::rat) powi (m + n) = 2 powi m * 2 powi n"
  by (simp add: power_int_add)

lemma pow2_le_iff [simp]: "(2::rat) powi m \<le> 2 powi n \<longleftrightarrow> m \<le> n"
  by (metis linorder_not_less one_less_numeral_iff power_int_increasing
      power_int_strict_increasing semiring_norm(76) less_eq_rat_def order_less_imp_le numeral_One
      one_le_numeral)

lemma pow2_less_iff [simp]: "(2::rat) powi m < 2 powi n \<longleftrightarrow> m < n"
  by (metis pow2_le_iff linorder_not_less)

lemma bitlen_rat_bounds:
  assumes "0 < (p::int)"
  shows "(2::rat) powi (bitlen p - 1) \<le> of_int p" "of_int p < (2::rat) powi bitlen p"
proof -
  from bitlen_bounds [OF assms]
  have lo: "2 ^ nat (bitlen p - 1) \<le> p" and hi: "p < 2 ^ nat (bitlen p)"
    by simp_all
  have pos: "1 \<le> bitlen p"
    using assms hi bitlen_nonneg [of p] by (cases "bitlen p = 0") auto
  have "(2::rat) powi (bitlen p - 1) = of_int (2 ^ nat (bitlen p - 1))"
    using pos by (simp add: power_int_def)
  also have "\<dots> \<le> of_int p"
    using lo by (simp only: of_int_le_iff)
  finally show "(2::rat) powi (bitlen p - 1) \<le> of_int p" .
  have "(of_int p :: rat) < of_int (2 ^ nat (bitlen p))"
    using hi by (simp only: of_int_less_iff)
  also have "\<dots> = 2 powi bitlen p"
    using pos by (simp add: power_int_def)
  finally show "of_int p < (2::rat) powi bitlen p" .
qed

lemma ilog2_bounds:
  assumes "0 < x"
  shows "2 powi ilog2 x \<le> x" "x < 2 powi (ilog2 x + 1)"
proof -
  define p where "p = fst (quotient_of x)"
  define q where "q = snd (quotient_of x)"
  define d where "d = bitlen p - bitlen q"
  have qp: "quotient_of x = (p, q)"
    by (simp add: p_def q_def)
  have q: "0 < q"
    using quotient_of_denom_pos [OF qp] .
  have x: "x = of_int p / of_int q"
    using quotient_of_div [OF qp] .
  have p: "0 < p"
    using assms q x by (simp add: zero_less_divide_iff)
  note bp = bitlen_rat_bounds [OF p] and bq = bitlen_rat_bounds [OF q]
  have qpos: "(0::rat) < of_int q"
    using q by simp
  have upper: "x < 2 powi (d + 1)"
  proof -
    have "x < 2 powi bitlen p / of_int q"
      unfolding x using bp(2) qpos by (simp add: divide_strict_right_mono)
    also have "\<dots> \<le> 2 powi bitlen p / 2 powi (bitlen q - 1)"
      using bq(1) by (simp add: frac_le)
    also have "\<dots> = 2 powi (d + 1)"
      by (simp add: d_def power_int_diff [symmetric] algebra_simps)
    finally show ?thesis .
  qed
  have lower: "2 powi (d - 1) \<le> x"
  proof -
    have "(2::rat) powi (d - 1) = 2 powi (bitlen p - 1) / 2 powi bitlen q"
      by (simp add: d_def power_int_diff [symmetric] algebra_simps)
    also have "\<dots> \<le> of_int p / 2 powi bitlen q"
      using bp(1) by (simp add: divide_right_mono)
    also have "\<dots> \<le> of_int p / of_int q"
      using bq(2) p qpos by (simp add: frac_le)
    finally show ?thesis
      by (simp add: x)
  qed
  have il: "ilog2 x = (if 2 powi d \<le> x then d else d - 1)"
    by (simp add: ilog2_def Let_def d_def p_def q_def)
  show "2 powi ilog2 x \<le> x"
    using lower by (simp add: il)
  show "x < 2 powi (ilog2 x + 1)"
    using upper by (auto simp: il)
qed

lemma ilog2_unique:
  assumes "2 powi k \<le> x" "x < 2 powi (k + 1)"
  shows "ilog2 x = k"
proof -
  have pos: "0 < x"
    using assms(1) pow2_pos [of k] by linarith
  note b = ilog2_bounds [OF pos]
  have "(2::rat) powi k < 2 powi (ilog2 x + 1)"
    using assms(1) b(2) by linarith
  moreover have "(2::rat) powi ilog2 x < 2 powi (k + 1)"
    using assms(2) b(1) by linarith
  ultimately show ?thesis
    by simp
qed

lemma ilog2_mono:
  assumes "0 < x" "x \<le> y"
  shows "ilog2 x \<le> ilog2 y"
proof -
  have "(2::rat) powi ilog2 x < 2 powi (ilog2 y + 1)"
    using ilog2_bounds(1) [OF assms(1)] ilog2_bounds(2) [of y] assms by linarith
  then show ?thesis
    by simp
qed

lemma rhe_zero [simp]: "rhe 0 = 0"
  by (simp add: rhe_def)

lemma rhe_nonneg: "0 \<le> x \<Longrightarrow> 0 \<le> rhe x"
  using rhe_mono [of 0 x] by simp

lemma rhe_ge: "of_int k \<le> x \<Longrightarrow> k \<le> rhe x"
  using rhe_mono [of "of_int k" x] by simp

lemma rhe_le: "x \<le> of_int k \<Longrightarrow> rhe x \<le> k"
  using rhe_mono [of x "of_int k"] by simp

lemma mag_zero [simp]: "mag 0 = 0"
  by (simp add: mag_def)

lemma mag_nonneg: "0 \<le> a \<Longrightarrow> 0 \<le> mag a"
  by (simp add: mag_def rhe_nonneg)

lemma expo_ge: "- 1022 \<le> expo a"
  by (simp add: expo_def)

lemma expo_mono: "0 < a \<Longrightarrow> a \<le> b \<Longrightarrow> expo a \<le> expo b"
  using ilog2_mono [of a b] by (simp add: expo_def)

lemma expo_upper: "0 < a \<Longrightarrow> a < 2 powi (expo a + 1)"
proof -
  assume a: "0 < a"
  have "a < 2 powi (ilog2 a + 1)"
    by (rule ilog2_bounds(2) [OF a])
  also have "\<dots> \<le> 2 powi (expo a + 1)"
    by (simp add: expo_def)
  finally show ?thesis .
qed

lemma expo_lower: "- 1022 < expo a \<Longrightarrow> 0 < a \<Longrightarrow> 2 powi expo a \<le> a"
  using ilog2_bounds(1) [of a] by (simp add: expo_def max_def split: if_splits)

lemma pow2_52: "(2::rat) powi 52 = of_int (2 ^ 52)" and pow2_53: "(2::rat) powi 53 = of_int (2 ^ 53)"
  by (simp_all add: power_int_def)

lemma pow2_div: "(2::rat) powi a / 2 powi b = 2 powi (a - b)"
  by (simp add: power_int_diff)

lemma pow2_53_mult: "(2::rat) powi 53 * 2 powi (E - 52) = 2 powi (E + 1)"
proof -
  have "53 + (E - 52) = E + 1"
    by simp
  then show ?thesis
    by (metis pow2_add)
qed

lemma pow2_52_mult: "(2::rat) powi 52 * 2 powi (E - 52) = 2 powi E"
proof -
  have "52 + (E - 52) = E"
    by simp
  then show ?thesis
    by (metis pow2_add)
qed

lemma scaled_upper:
  assumes "0 < a"
  shows "a / 2 powi (expo a - 52) < of_int (2 ^ 53)"
proof -
  have "a / 2 powi (expo a - 52) < 2 powi (expo a + 1) / 2 powi (expo a - 52)"
    using expo_upper [OF assms] by (simp add: divide_strict_right_mono)
  also have "\<dots> = 2 powi 53"
    by (simp add: power_int_diff [symmetric])
  finally show ?thesis
    by (simp only: pow2_53)
qed

lemma scaled_lower:
  assumes "0 < a" "- 1022 < expo a"
  shows "of_int (2 ^ 52) \<le> a / 2 powi (expo a - 52)"
proof -
  have "(2::rat) powi 52 = 2 powi expo a / 2 powi (expo a - 52)"
    by (simp add: power_int_diff [symmetric])
  also have "\<dots> \<le> a / 2 powi (expo a - 52)"
    using expo_lower [OF assms(2) assms(1)] by (simp add: divide_right_mono)
  finally show ?thesis
    by (simp only: pow2_52)
qed

lemma mag_upper:
  assumes "0 < a"
  shows "mag a \<le> 2 powi (expo a + 1)"
proof -
  have "rhe (a / 2 powi (expo a - 52)) \<le> 2 ^ 53"
    using scaled_upper [OF assms] by (intro rhe_le) simp
  then have "(of_int (rhe (a / 2 powi (expo a - 52))) :: rat) \<le> of_int (2 ^ 53)"
    by (simp only: of_int_le_iff)
  then have "mag a \<le> of_int (2 ^ 53) * 2 powi (expo a - 52)"
    unfolding mag_def by (simp add: mult_right_mono)
  also have "\<dots> = 2 powi 53 * 2 powi (expo a - 52)"
    by (simp only: pow2_53)
  also have "\<dots> = 2 powi (expo a + 1)"
    by (rule pow2_53_mult)
  finally show ?thesis .
qed

lemma mag_lower:
  assumes "0 < a" "- 1022 < expo a"
  shows "2 powi expo a \<le> mag a"
proof -
  have "2 ^ 52 \<le> rhe (a / 2 powi (expo a - 52))"
    using scaled_lower [OF assms] by (intro rhe_ge)
  then have "(of_int (2 ^ 52) :: rat) \<le> of_int (rhe (a / 2 powi (expo a - 52)))"
    by (simp only: of_int_le_iff)
  then have "of_int (2 ^ 52) * 2 powi (expo a - 52) \<le> mag a"
    unfolding mag_def by (simp add: mult_right_mono)
  moreover have "of_int (2 ^ 52) * 2 powi (expo a - 52) = (2::rat) powi 52 * 2 powi (expo a - 52)"
    by (simp only: pow2_52)
  moreover have "(2::rat) powi 52 * 2 powi (expo a - 52) = 2 powi expo a"
    by (rule pow2_52_mult)
  ultimately show ?thesis
    by simp
qed

lemma mag_mono:
  assumes "0 \<le> a" "a \<le> b"
  shows "mag a \<le> mag b"
proof (cases "a = 0")
  case True
  with assms show ?thesis
    by (simp add: mag_nonneg)
next
  case False
  with assms have a: "0 < a" and b: "0 < b"
    by simp_all
  show ?thesis
  proof (cases "expo a = expo b")
    case True
    have "a / 2 powi (expo b - 52) \<le> b / 2 powi (expo b - 52)"
      using assms(2) by (simp add: divide_right_mono)
    then have "rhe (a / 2 powi (expo b - 52)) \<le> rhe (b / 2 powi (expo b - 52))"
      by (rule rhe_mono)
    then show ?thesis
      unfolding mag_def True by (simp add: mult_right_mono)
  next
    case False
    with expo_mono [OF a assms(2)] have lt: "expo a + 1 \<le> expo b"
      by simp
    with expo_ge [of a] have nb: "- 1022 < expo b"
      by simp
    have "mag a \<le> 2 powi (expo a + 1)"
      by (rule mag_upper [OF a])
    also have "\<dots> \<le> 2 powi expo b"
      using lt by simp
    also have "\<dots> \<le> mag b"
      by (rule mag_lower [OF b nb])
    finally show ?thesis .
  qed
qed

text \<open>A multiple of the quantum of a binade, up to the top of the binade, is kept.\<close>

lemma mag_grid:
  assumes "0 \<le> n" "n \<le> 2 ^ 53" "- 1022 \<le> E"
  shows "mag (of_int n * 2 powi (E - 52)) = of_int n * 2 powi (E - 52)"
proof -
  define y :: rat where "y = of_int n * 2 powi (E - 52)"
  consider "n = 0" | "n = 2 ^ 53" | "0 < n" "n < 2 ^ 53"
    using assms by linarith
  then have "mag y = y"
  proof cases
    case 1
    then show ?thesis by (simp add: y_def)
  next
    case 2
    have y: "y = 2 powi (E + 1)"
      unfolding y_def 2 by (simp only: pow2_53 [symmetric] pow2_53_mult)
    have "ilog2 y = E + 1"
      by (rule ilog2_unique) (simp_all add: y)
    then have e: "expo y = E + 1"
      using assms(3) by (simp add: expo_def)
    have "y / 2 powi (expo y - 52) = 2 powi ((E + 1) - (E + 1 - 52))"
      unfolding e unfolding y by (rule pow2_div)
    also have "(E + 1) - (E + 1 - 52) = 52"
      by simp
    finally have "y / 2 powi (expo y - 52) = of_int (2 ^ 52)"
      by (simp only: pow2_52)
    then have "mag y = of_int (2 ^ 52) * 2 powi (expo y - 52)"
      unfolding mag_def by (simp only: rhe_of_int)
    also have "\<dots> = 2 powi 52 * 2 powi (E + 1 - 52)"
      by (simp only: pow2_52 e)
    also have "\<dots> = y"
      unfolding y by (rule pow2_52_mult)
    finally show ?thesis .
  next
    case 3
    have ypos: "0 < y"
      using 3(1) by (simp add: y_def)
    have "(of_int n :: rat) < of_int (2 ^ 53)"
      using 3(2) by (simp only: of_int_less_iff)
    then have "y < 2 powi 53 * 2 powi (E - 52)"
      unfolding y_def by (simp only: pow2_53 [symmetric] mult_strict_right_mono pow2_pos)
    then have "y < 2 powi (E + 1)"
      by (simp only: pow2_53_mult)
    with ilog2_bounds(1) [OF ypos] have "(2::rat) powi ilog2 y < 2 powi (E + 1)"
      by linarith
    then have le: "expo y \<le> E"
      using assms(3) by (simp add: expo_def)
    define k where "k = nat (E - expo y)"
    define Q :: rat where "Q = 2 powi (expo y - 52)"
    have Qpos: "0 < Q"
      by (simp add: Q_def)
    have "int k + (expo y - 52) = E - 52"
      using le by (simp add: k_def)
    then have "(2::rat) powi (E - 52) = 2 powi (int k) * Q"
      unfolding Q_def by (metis pow2_add)
    then have q: "(2::rat) powi (E - 52) = of_int (2 ^ k) * Q"
      by (simp add: power_int_of_nat)
    have yq: "y = of_int (n * 2 ^ k) * Q"
      unfolding y_def q by simp
    have "y / Q = of_int (n * 2 ^ k)"
      using Qpos by (simp add: yq)
    then have "mag y = of_int (n * 2 ^ k) * Q"
      unfolding mag_def Q_def [symmetric] by (simp only: rhe_of_int)
    then show ?thesis
      by (simp only: yq [symmetric])
  qed
  then show ?thesis
    by (simp add: y_def)
qed

lemma mag_idem:
  assumes "0 \<le> a"
  shows "mag (mag a) = mag a"
proof (cases "a = 0")
  case True
  then show ?thesis by simp
next
  case False
  with assms have a: "0 < a" by simp
  have "0 \<le> a / 2 powi (expo a - 52)"
    using assms by simp
  then have n0: "0 \<le> rhe (a / 2 powi (expo a - 52))"
    by (rule rhe_nonneg)
  have n1: "rhe (a / 2 powi (expo a - 52)) \<le> 2 ^ 53"
    using scaled_upper [OF a] by (intro rhe_le) simp
  show ?thesis
    using mag_grid [OF n0 n1 expo_ge [of a]] by (simp add: mag_def)
qed

lemma mag_of_int:
  assumes "0 \<le> n" "n \<le> 2 ^ 53"
  shows "mag (of_int n) = of_int n"
  using mag_grid [OF assms, of 52] by simp

lemma round_double_pos:
  "0 < x \<Longrightarrow> round_double x = (if 2 powi 1024 \<le> mag x then PInf else Fin (mag x))"
  by (simp add: round_double_def)

lemma round_double_nonpos:
  "x \<le> 0 \<Longrightarrow> round_double x = (if 2 powi 1024 \<le> mag (- x) then NInf else Fin (- mag (- x)))"
  by (simp add: round_double_def abs_if)

lemma round_double_mono:
  assumes "x \<le> y"
  shows "js_le (round_double x) (round_double y)"
proof -
  consider "0 < x" | "x \<le> 0" "0 < y" | "y \<le> 0"
    by linarith
  then show ?thesis
  proof cases
    case 1
    with assms have y: "0 < y" by simp
    have "mag x \<le> mag y"
      using 1 assms by (intro mag_mono) simp_all
    then show ?thesis
      by (auto simp: round_double_pos [OF 1] round_double_pos [OF y])
  next
    case 2
    have "0 \<le> mag (- x)" "0 \<le> mag y"
      using 2 by (simp_all add: mag_nonneg)
    then show ?thesis
      by (auto simp: round_double_nonpos [OF 2(1)] round_double_pos [OF 2(2)])
  next
    case 3
    with assms have x: "x \<le> 0" by simp
    have "mag (- y) \<le> mag (- x)"
      using 3 assms by (intro mag_mono) simp_all
    then show ?thesis
      by (auto simp: round_double_nonpos [OF 3] round_double_nonpos [OF x])
  qed
qed

lemma round_double_idem:
  assumes "round_double x = Fin y"
  shows "round_double y = Fin y"
proof (cases "0 < x")
  case True
  with assms have y: "y = mag x" and small: "\<not> 2 powi 1024 \<le> mag x"
    by (simp_all add: round_double_pos split: if_splits)
  have fixed: "mag y = y"
    unfolding y using True by (intro mag_idem) simp
  have "0 \<le> y"
    unfolding y using True by (intro mag_nonneg) simp
  then show ?thesis
    using small fixed y by (cases "y = 0") (simp_all add: round_double_pos round_double_nonpos)
next
  case False
  then have x: "x \<le> 0" by simp
  with assms have y: "y = - mag (- x)" and small: "\<not> 2 powi 1024 \<le> mag (- x)"
    by (simp_all add: round_double_nonpos split: if_splits)
  have fixed: "mag (- y) = - y"
    unfolding y using x by (simp add: mag_idem)
  have "y \<le> 0"
    unfolding y using x by (simp add: mag_nonneg)
  then show ?thesis
    using small fixed y by (simp add: round_double_nonpos)
qed

lemma round_double_nonneg: "0 \<le> x \<Longrightarrow> js_le (Fin 0) (round_double x)"
  using round_double_mono [of 0 x] by (simp add: round_double_def)

lemma round_double_nonpos_le: "x \<le> 0 \<Longrightarrow> js_le (round_double x) (Fin 0)"
  using round_double_mono [of x 0] by (simp add: round_double_def)

lemma round_double_not_NaN [simp]: "round_double x \<noteq> NaN"
  by (simp add: round_double_def Let_def)

lemma round_double_of_int:
  assumes "\<bar>n\<bar> \<le> 2 ^ 53"
  shows "round_double (of_int n) = Fin (of_int n)"
proof -
  have small: "\<not> (2::rat) powi 1024 \<le> of_int \<bar>n\<bar>"
  proof -
    have "(of_int \<bar>n\<bar> :: rat) \<le> of_int (2 ^ 53)"
      using assms by (simp only: of_int_le_iff)
    also have "\<dots> = 2 powi 53"
      by (simp only: pow2_53)
    also have "\<dots> < 2 powi 1024"
      by (simp only: pow2_less_iff)
    finally show ?thesis
      by simp
  qed
  have m: "mag (of_int \<bar>n\<bar>) = of_int \<bar>n\<bar>"
    using assms by (intro mag_of_int) simp_all
  show ?thesis
  proof (cases "0 < n")
    case True
    then show ?thesis
      using m small by (simp add: round_double_pos)
  next
    case False
    then have "\<bar>n\<bar> = - n" by simp
    with False m small show ?thesis
      by (simp add: round_double_nonpos)
  qed
qed

lemma round_double_finite:
  assumes "\<bar>x\<bar> \<le> 2 powi 1023"
  shows "isFinite (round_double x)"
proof -
  have "mag \<bar>x\<bar> \<le> mag (2 powi 1023)"
    using assms by (intro mag_mono) simp_all
  also have "mag (2 powi 1023) = 2 powi 1023"
  proof -
    have "(2::rat) powi 1023 = 2 powi 52 * 2 powi (1023 - 52)"
      by (simp only: pow2_52_mult)
    also have "\<dots> = of_int (2 ^ 52) * 2 powi (1023 - 52)"
      by (simp only: pow2_52)
    finally have e: "(2::rat) powi 1023 = of_int (2 ^ 52) * 2 powi (1023 - 52)" .
    have "mag (of_int (2 ^ 52) * 2 powi (1023 - 52)) = of_int (2 ^ 52) * 2 powi (1023 - 52)"
      by (rule mag_grid) simp_all
    then show ?thesis
      by (simp only: e [symmetric])
  qed
  also have "(2::rat) powi 1023 < 2 powi 1024"
    by (simp only: pow2_less_iff)
  finally have "\<not> 2 powi 1024 \<le> mag \<bar>x\<bar>"
    by simp
  then show ?thesis
    by (simp add: round_double_def Let_def)
qed

text \<open>Rounding a positive rational whose binade is known.\<close>

lemma round_double_eval:
  assumes "2 powi E \<le> x" "x < 2 powi (E + 1)" "- 1022 \<le> E" "E \<le> 1022"
    and "rhe (x / 2 powi (E - 52)) = n"
  shows "round_double x = Fin (of_int n * 2 powi (E - 52))"
proof -
  have pos: "0 < x"
    using assms(1) pow2_pos [of E] by linarith
  have "ilog2 x = E"
    by (rule ilog2_unique [OF assms(1,2)])
  then have e: "expo x = E"
    using assms(3) by (simp add: expo_def)
  have m: "mag x = of_int n * 2 powi (E - 52)"
    by (simp add: mag_def e assms(5))
  have "mag x \<le> 2 powi (E + 1)"
    using mag_upper [OF pos] by (simp only: e)
  also have "(2::rat) powi (E + 1) < 2 powi 1024"
    using assms(4) by (simp only: pow2_less_iff)
  finally have "\<not> 2 powi 1024 \<le> mag x"
    by simp
  then show ?thesis
    using pos m by (simp add: round_double_pos)
qed

lemma is_double_grid:
  assumes "0 \<le> n" "n \<le> 2 ^ 53" "- 1022 \<le> E" "E \<le> 1022"
  shows "is_double (of_int n * 2 powi (E - 52))"
proof -
  define y :: rat where "y = of_int n * 2 powi (E - 52)"
  have m: "mag y = y"
    unfolding y_def by (rule mag_grid [OF assms(1-3)])
  have "(of_int n :: rat) \<le> of_int (2 ^ 53)"
    using assms(2) by (simp only: of_int_le_iff)
  then have "y \<le> 2 powi 53 * 2 powi (E - 52)"
    unfolding y_def by (simp only: pow2_53 [symmetric] mult_right_mono pow2_pos less_imp_le)
  also have "\<dots> = 2 powi (E + 1)"
    by (rule pow2_53_mult)
  also have "\<dots> < 2 powi 1024"
    using assms(4) by (simp only: pow2_less_iff)
  finally have small: "\<not> 2 powi 1024 \<le> y"
    by simp
  have "0 \<le> y"
    using assms(1) by (simp add: y_def)
  then have "round_double y = Fin y"
    using small m by (cases "y = 0") (simp_all add: round_double_pos round_double_def)
  then show ?thesis
    by (simp add: is_double_def y_def)
qed

text \<open>The double nearest to 0.13, its products, and a tie at \<open>2 ^ 53\<close>.\<close>

lemma double_013: "is_double (1170935903116329 / 9007199254740992)"
  using is_double_grid [of 4683743612465316 "- 3"] by simp

lemma double_013_times_60:
  "round_double (1170935903116329 / 9007199254740992 * 60) =
   Fin (2195504818343117 / 281474976710656)"
proof -
  have "rhe (1170935903116329 / 9007199254740992 * 60 / 2 powi (2 - 52)) = 8782019273372468"
    by code_simp
  from round_double_eval [OF _ _ _ _ this] show ?thesis
    by simp
qed

lemma double_013_times_60_times_1000:
  "round_double (2195504818343117 / 281474976710656 * 1000) = Fin (7800 + 1 / 2 ^ 40)"
proof -
  have "rhe (2195504818343117 / 281474976710656 * 1000 / 2 powi (12 - 52)) = 8576190696652801"
    by code_simp
  from round_double_eval [OF _ _ _ _ this] show ?thesis
    by simp
qed

lemma double_013_times_60000:
  "round_double (1170935903116329 / 9007199254740992 * 60000) = Fin 7800"
proof -
  have "rhe (1170935903116329 / 9007199254740992 * 60000 / 2 powi (12 - 52)) = 8576190696652800"
    by code_simp
  from round_double_eval [OF _ _ _ _ this] show ?thesis
    by simp
qed

lemma double_tie_2_53: "round_double 9007199254740993 = Fin 9007199254740992"
proof -
  have "rhe (9007199254740993 / 2 powi (53 - 52)) = 4503599627370496"
    by code_simp
  from round_double_eval [OF _ _ _ _ this] show ?thesis
    by simp
qed

lemma minutes_013:
  "minutesToMilliseconds (Fin (1170935903116329 / 9007199254740992)) = Fin (7800 + 1 / 2 ^ 40)"
proof -
  have "minutesToMilliseconds (Fin (1170935903116329 / 9007199254740992)) =
        js_mul (js_mul (Fin (1170935903116329 / 9007199254740992)) (Fin 60)) (Fin 1000)"
    by (simp only: minutesToMilliseconds_def isFinite.simps not_True_eq_False if_False)
  also have "\<dots> = js_mul (Fin (2195504818343117 / 281474976710656)) (Fin 1000)"
    by (simp only: js_mul.simps double_013_times_60)
  also have "\<dots> = Fin (7800 + 1 / 2 ^ 40)"
    by (simp only: js_mul.simps double_013_times_60_times_1000)
  finally show ?thesis .
qed

lemma js_mul_013_60000:
  "js_mul (Fin (1170935903116329 / 9007199254740992)) (Fin 60000) = Fin 7800"
  by (simp only: js_mul.simps double_013_times_60000)

lemma round_double_is_double: "round_double x = Fin y \<Longrightarrow> is_double y"
  unfolding is_double_def by (rule round_double_idem)

lemma is_double_of_int: "\<bar>n\<bar> \<le> 2 ^ 53 \<Longrightarrow> is_double (of_int n)"
  unfolding is_double_def by (rule round_double_of_int)

lemma round_double_numeral [simp]:
  "numeral k \<le> (2::int) ^ 53 \<Longrightarrow> round_double (numeral k) = Fin (numeral k)"
  "numeral k \<le> (2::int) ^ 53 \<Longrightarrow> round_double (- numeral k) = Fin (- numeral k)"
  "round_double 0 = Fin 0"
  "round_double 1 = Fin 1"
  using round_double_of_int [of "numeral k"] round_double_of_int [of "- numeral k"]
    round_double_of_int [of 0] round_double_of_int [of 1]
  by simp_all

lemma round_double_bounded:
  assumes "\<bar>x\<bar> \<le> 2 powi 1023"
  obtains y where "round_double x = Fin y" "is_double y"
  using round_double_finite [OF assms] round_double_is_double [of x]
  by (cases "round_double x") auto

section \<open>Facts about the operators\<close>

lemma js_less_not_le: "js_less (Fin 0) r \<Longrightarrow> \<not> js_le r (Fin 0)"
  by (cases r) auto

lemma js_le_zero_cases: "x \<noteq> NaN \<Longrightarrow> \<not> js_le x (Fin 0) \<Longrightarrow> js_less (Fin 0) x"
  by (cases x) auto

lemma js_less_imp_le: "js_less a b \<Longrightarrow> js_le a b"
  by (cases a; cases b) auto

lemma js_sub_Fin [simp]: "js_sub (Fin a) (Fin b) = round_double (a - b)"
  by (simp add: js_sub_def)

lemma js_sub_PInf_Fin [simp]: "js_sub PInf (Fin b) = PInf"
  by (simp add: js_sub_def)

lemma js_mul_nonpos:
  assumes "js_le a (Fin 0)" "0 < c"
  shows "js_le (js_mul a (Fin c)) (Fin 0)"
proof (cases a)
  case (Fin x)
  with assms have "x * c \<le> 0"
    by (simp add: mult_le_0_iff)
  then show ?thesis
    unfolding Fin by (simp add: round_double_nonpos_le)
qed (use assms in auto)

lemma js_mul_grows:
  assumes "is_double x" "0 < x" "1 \<le> c"
  shows "js_le (Fin x) (js_mul (Fin x) (Fin c))"
proof -
  have "x * 1 \<le> x * c"
    using assms(2,3) by (intro mult_left_mono) simp_all
  then have "js_le (round_double x) (round_double (x * c))"
    by (intro round_double_mono) simp
  then show ?thesis
    using assms(1) by (simp add: is_double_def)
qed

lemma is_double_zero [simp]: "is_double 0"
  by (simp add: is_double_def)

lemma minutes_rejected:
  assumes "\<not> isFinite minutes \<or> js_le minutes (Fin 0)"
  shows "js_le (minutesToMilliseconds minutes) (Fin 0)"
proof (cases "isFinite minutes")
  case True
  with assms have "js_le minutes (Fin 0)" by simp
  then have "js_le (js_mul minutes (Fin 60)) (Fin 0)"
    by (rule js_mul_nonpos) simp
  then have "js_le (js_mul (js_mul minutes (Fin 60)) (Fin 1000)) (Fin 0)"
    by (rule js_mul_nonpos) simp
  with True show ?thesis
    by (simp add: minutesToMilliseconds_def)
next
  case False
  then show ?thesis
    by (simp add: minutesToMilliseconds_def)
qed

lemma minutes_accepted:
  assumes "is_double m" "0 < m"
  shows "js_less (Fin 0) (minutesToMilliseconds (Fin m))"
proof -
  have first: "js_le (Fin m) (js_mul (Fin m) (Fin 60))"
    using assms by (intro js_mul_grows) simp_all
  show ?thesis
  proof (cases "js_mul (Fin m) (Fin 60)")
    case (Fin y)
    with first have y: "0 < y" "is_double y"
      using assms(2) round_double_is_double [of "m * 60" y] by simp_all
    have "js_le (Fin y) (js_mul (Fin y) (Fin 1000))"
      using y by (intro js_mul_grows) simp_all
    then have "js_less (Fin 0) (js_mul (Fin y) (Fin 1000))"
      using y(1) by (cases "js_mul (Fin y) (Fin 1000)") simp_all
    then show ?thesis
      by (simp add: minutesToMilliseconds_def Fin del: js_mul.simps)
  next
    case PInf
    then show ?thesis
      by (simp add: minutesToMilliseconds_def)
  next
    case NInf
    with first show ?thesis by simp
  next
    case NaN
    with first show ?thesis by simp
  qed
qed

text \<open>What \<open>minutesToMilliseconds\<close> can return: never NaN, and a double when finite.\<close>

lemma minutes_shape:
  "minutesToMilliseconds minutes \<noteq> NaN"
  "minutesToMilliseconds minutes = Fin y \<Longrightarrow> is_double y"
proof -
  have "minutesToMilliseconds minutes \<noteq> NaN \<and>
        (\<forall>y. minutesToMilliseconds minutes = Fin y \<longrightarrow> is_double y)"
  proof (cases minutes)
    case (Fin m)
    show ?thesis
    proof (cases "round_double (m * 60)")
      case inner: (Fin z)
      show ?thesis
        using round_double_is_double [of "z * 1000"]
        by (auto simp: minutesToMilliseconds_def Fin inner)
    qed (simp_all add: minutesToMilliseconds_def Fin)
  qed (simp_all add: minutesToMilliseconds_def)
  then show "minutesToMilliseconds minutes \<noteq> NaN"
    and "minutesToMilliseconds minutes = Fin y \<Longrightarrow> is_double y"
    by simp_all
qed

text \<open>Whole minutes are converted exactly while the milliseconds stay within \<open>2 ^ 53\<close>.\<close>

lemma minutes_whole:
  assumes "0 \<le> n" "n * 60000 \<le> 2 ^ 53"
  shows "minutesToMilliseconds (Fin (of_int n)) = Fin (of_int (n * 60000))"
proof -
  have a: "\<bar>n * 60\<bar> \<le> 2 ^ 53" and b: "\<bar>n * 60 * 1000\<bar> \<le> 2 ^ 53"
    using assms by simp_all
  have "round_double (of_int n * 60) = Fin (of_int (n * 60))"
    using round_double_of_int [OF a] by simp
  moreover have "round_double (of_int (n * 60) * 1000) = Fin (of_int (n * 60 * 1000))"
    using round_double_of_int [OF b] by simp
  ultimately show ?thesis
    by (simp add: minutesToMilliseconds_def)
qed

section \<open>Facts about the status bar and the statistics\<close>

text \<open>Refreshing the status bar touches the status bar only.\<close>

lemma updateStatusBar_fields [simp]:
  "statsManager (updateStatusBar s) = statsManager s"
  "remainingMs (updateStatusBar s) = remainingMs s"
  "lastTickTime (updateStatusBar s) = lastTickTime s"
  "running (updateStatusBar s) = running s"
  "timer (updateStatusBar s) = timer s"
  "intervals (updateStatusBar s) = intervals s"
  "next_handle (updateStatusBar s) = next_handle s"
  "outputs (updateStatusBar s) = outputs s"
  by (simp_all add: updateStatusBar_def set_text_def)

lemma stopTimerInternal_fields [simp]:
  "statsManager (stopTimerInternal b s) = statsManager s"
  "lastTickTime (stopTimerInternal b s) = lastTickTime s"
  "remainingMs (stopTimerInternal False s) = remainingMs s"
  "remainingMs (stopTimerInternal True s) = Fin 0"
  "\<not> running (stopTimerInternal b s)"
  by (simp_all add: stopTimerInternal_def Let_def split: option.split)

lemma finishSession_fields [simp]:
  "remainingMs (finishSession now today ok s) = remainingMs s"
  "lastTickTime (finishSession now today ok s) = lastTickTime s"
  "\<not> running (finishSession now today ok s)"
  by (simp_all add: finishSession_def Let_def set_text_def)

lemma own_props_set_prop [simp]: "own_props (set_prop ob key v) = (own_props ob)(key \<mapsto> v)"
  by (simp add: own_props_def set_prop_def update_conv')

lemma get_prop_set_prop [simp]:
  "get_prop (set_prop ob key v) key' = (if key' = key then v else get_prop ob key')"
  by (simp add: get_prop_def)

lemma add_rejected:
  "\<not> isFinite d \<or> js_le d (Fin 0) \<Longrightarrow> addFocusedMilliseconds d today ok sm = (sm, True)"
  by (simp add: addFocusedMilliseconds_def)

lemma add_accepted:
  assumes "isFinite d" "js_less (Fin 0) d"
  shows "addFocusedMilliseconds d today ok sm =
         (\<lparr>stats = set_prop (stats sm) (getTodayKey today)
                     (js_plus (bucket_or_zero (stats sm) (getTodayKey today)) d),
           updates = updates sm @
             [(STORAGE_KEY_STATS,
               set_prop (stats sm) (getTodayKey today)
                     (js_plus (bucket_or_zero (stats sm) (getTodayKey today)) d))]\<rparr>, ok)"
  using assms by (simp add: addFocusedMilliseconds_def saveStats_def Let_def js_less_not_le)

text \<open>
  A bucket that is absent or holds a number is read as a number that is not NaN, and
  adding a finite positive delta to it gives a number that is read back as it is.
\<close>

lemma bucket_number:
  assumes "own_props ob key = None \<or> (\<exists>v. own_props ob key = Some (JNum v))"
  obtains p where "bucket_or_zero ob key = JNum p" "p \<noteq> NaN"
proof -
  have "\<exists>p. bucket_or_zero ob key = JNum p \<and> p \<noteq> NaN"
    using assms by (auto simp: bucket_or_zero_def get_prop_def js_truthy_def Let_def)
  then show ?thesis
    using that by blast
qed

lemma js_add_read_back:
  assumes "p \<noteq> NaN" "isFinite d"
  shows "(if truthy (JNum (js_add p d)) then JNum (js_add p d) else JNum (Fin 0)) =
         JNum (js_add p d)"
proof -
  obtain x where d: "d = Fin x"
    using assms(2) by (cases d) auto
  show ?thesis
    using assms(1) by (cases p) (auto simp: d js_truthy_def)
qed

lemma today_after_add:
  assumes "isFinite d" "js_less (Fin 0) d" "bucket_or_zero (stats sm) (getTodayKey today) = JNum p"
    and "p \<noteq> NaN"
  shows "getTodayMilliseconds today (fst (addFocusedMilliseconds d today ok sm)) =
         JNum (js_add p d)"
  using assms js_add_read_back [OF assms(4) assms(1)]
  by (simp add: add_accepted getTodayMilliseconds_def bucket_or_zero_def)

section \<open>Clock readings\<close>

lemma epoch_ms_range: "\<bar>epoch_ms t\<bar> \<le> 8640000000000000"
  using epoch_ms [of t] by auto

lemma epoch_ms_at_ms:
  "- 8640000000000000 \<le> t \<Longrightarrow> t \<le> 8640000000000000 \<Longrightarrow> epoch_ms (at_ms t) = t"
  by (simp add: at_ms.rep_eq)

text \<open>The time between a stored reading and a new one is a finite double.\<close>

lemma elapsed_finite:
  assumes "\<bar>t\<bar> \<le> 8640000000000000"
  obtains dl where "js_sub (Date_now now) (Fin t) = Fin dl" "is_double dl"
proof -
  have "(of_int \<bar>epoch_ms now\<bar> :: rat) \<le> of_int 8640000000000000"
    by (simp only: of_int_le_iff epoch_ms_range)
  then have e: "\<bar>of_int (epoch_ms now) :: rat\<bar> \<le> 8640000000000000"
    by simp
  have "\<bar>of_int (epoch_ms now) - t\<bar> \<le> \<bar>of_int (epoch_ms now)\<bar> + \<bar>t\<bar>"
    by (rule abs_triangle_ineq4)
  also have "\<dots> \<le> 17280000000000000"
    using e assms by linarith
  also have "(17280000000000000::rat) \<le> 2 powi 55"
    by simp
  also have "(2::rat) powi 55 \<le> 2 powi 1023"
    by (simp only: pow2_le_iff)
  finally have "\<bar>of_int (epoch_ms now) - t\<bar> \<le> 2 powi 1023" .
  then obtain dl where "round_double (of_int (epoch_ms now) - t) = Fin dl" "is_double dl"
    by (rule round_double_bounded)
  then show ?thesis
    using that by (simp add: Date_now_def)
qed

section \<open>The invariant of the reachable states\<close>

lemma double_state_cases:
  assumes "double_state s"
  obtains t where "remainingMs s = PInf" "lastTickTime s = Fin t" "\<bar>t\<bar> \<le> 8640000000000000"
  | r t where "remainingMs s = Fin r" "0 \<le> r" "is_double r"
      "lastTickTime s = Fin t" "\<bar>t\<bar> \<le> 8640000000000000"
  using assms unfolding double_state_def
  by (cases "remainingMs s"; cases "lastTickTime s") auto

lemma double_state_updateStatusBar [simp]:
  "double_state (updateStatusBar s) = double_state s"
  by (simp add: double_state_def)

lemma double_state_initial: "double_state (initial raw)"
  by (simp add: double_state_def initial_def)

lemma double_state_stopTimerInternal:
  "double_state s \<Longrightarrow> double_state (stopTimerInternal b s)"
  by (cases b) (simp_all add: double_state_def)

lemma double_state_Date_now:
  "(case Date_now now of Fin t \<Rightarrow> \<bar>t\<bar> \<le> 8640000000000000 | _ \<Rightarrow> False)"
proof -
  have "\<bar>of_int (epoch_ms now) :: rat\<bar> \<le> of_int 8640000000000000"
    using epoch_ms_range [of now] by (simp only: of_int_abs [symmetric] of_int_le_iff)
  then show ?thesis
    by (simp add: Date_now_def)
qed

lemma double_state_start:
  assumes "double_state s"
  shows "double_state (startNewSession minutes now s)"
proof (cases "js_le (minutesToMilliseconds minutes) (Fin 0)")
  case True
  with assms show ?thesis
    by (simp add: startNewSession_def double_state_def)
next
  case False
  have rem: "case minutesToMilliseconds minutes of
               Fin r \<Rightarrow> 0 \<le> r \<and> is_double r | PInf \<Rightarrow> True | _ \<Rightarrow> False"
    using False minutes_shape [of minutes]
    by (cases "minutesToMilliseconds minutes") auto
  show ?thesis
    using False rem double_state_Date_now [of now]
    by (simp add: startNewSession_def setInterval_def double_state_def Let_def)
qed

text \<open>The remaining time and the time of the last tick after a tick of a running session.\<close>

lemma onTick_running:
  assumes "running s"
  shows "remainingMs (onTick now nowFinish today ok s) =
           (if js_le (js_sub (remainingMs s) (js_sub (Date_now now) (lastTickTime s))) (Fin 0)
            then Fin 0
            else js_sub (remainingMs s) (js_sub (Date_now now) (lastTickTime s)))"
    and "lastTickTime (onTick now nowFinish today ok s) = Date_now now"
  using assms by (simp_all add: onTick_def Let_def)

lemma double_state_onTick:
  assumes "double_state s"
  shows "double_state (onTick now nowFinish today ok s)"
proof (cases "running s")
  case False
  with assms show ?thesis
    by (simp add: onTick_def)
next
  case True
  note after = onTick_running [OF True, of now nowFinish today ok]
  from assms show ?thesis
  proof (cases rule: double_state_cases)
    case (1 t)
    from elapsed_finite [OF 1(3), of now] obtain dl
      where dl: "js_sub (Date_now now) (Fin t) = Fin dl" by blast
    show ?thesis
      using double_state_Date_now [of now]
      by (simp add: double_state_def after 1 dl)
  next
    case (2 r t)
    from elapsed_finite [OF 2(5), of now] obtain dl
      where dl: "js_sub (Date_now now) (Fin t) = Fin dl" by blast
    have "case round_double (r - dl) of
            Fin y \<Rightarrow> js_le (Fin y) (Fin 0) \<or> (0 \<le> y \<and> is_double y) | PInf \<Rightarrow> True
          | NInf \<Rightarrow> True | NaN \<Rightarrow> False"
      using round_double_is_double [of "r - dl"]
      by (cases "round_double (r - dl)") auto
    then show ?thesis
      using double_state_Date_now [of now]
      by (cases "round_double (r - dl)") (auto simp: double_state_def after 2 dl)
  qed
qed

lemma double_state_toggle:
  "double_state s \<Longrightarrow> double_state (togglePauseOrResume now s)"
  using double_state_Date_now [of now]
  by (simp add: togglePauseOrResume_def) (simp add: double_state_def)

lemma double_state_stop:
  "double_state s \<Longrightarrow> double_state (stopSession b s)"
  by (simp add: stopSession_def Let_def) (simp add: double_state_def)

lemma double_state_dispose:
  "double_state s \<Longrightarrow> double_state (dispose s)"
  by (simp add: dispose_def Let_def double_state_def)

lemma double_state_step: "double_state s \<Longrightarrow> double_state (step e s)"
  by (cases e)
     (simp_all add: double_state_start double_state_onTick double_state_toggle
        double_state_stop double_state_dispose)

lemma double_state_run: "double_state s \<Longrightarrow> double_state (run es s)"
  by (induction es arbitrary: s) (simp_all add: double_state_step)

text \<open>
  What a finishing tick hands to the statistics: the time between the two clock readings
  of that tick plus one tick interval, whatever the length of the session was.
\<close>

lemma onTick_finish_statsManager:
  assumes "running s"
    and "js_le (js_sub (remainingMs s) (js_sub (Date_now now) (lastTickTime s))) (Fin 0)"
  shows "statsManager (onTick now nowFinish today ok s) =
         fst (addFocusedMilliseconds
               (js_max (Fin 0)
                  (js_add (js_sub (Date_now nowFinish) (Date_now now)) TICK_INTERVAL_MS))
               today ok (statsManager s))"
  using assms
  by (simp add: onTick_def finishSession_def Let_def set_text_def)

section \<open>Runs of ticks\<close>

lemma run_append: "run (es @ fs) s = run fs (run es s)"
  by (induction es arbitrary: s) simp_all

lemma ticks_snoc:
  "ticks (Suc n) t p d =
   ticks n t p d @
     [Tick (at_ms (t + (int n + 1) * p)) (at_ms (t + (int n + 1) * p)) d True]"
proof (induction n arbitrary: t)
  case 0
  show ?case by simp
next
  case (Suc n)
  have "ticks (Suc (Suc n)) t p d =
        Tick (at_ms (t + p)) (at_ms (t + p)) d True # ticks (Suc n) (t + p) p d"
    by simp
  also have "\<dots> = Tick (at_ms (t + p)) (at_ms (t + p)) d True #
      (ticks n (t + p) p d @
        [Tick (at_ms (t + p + (int n + 1) * p)) (at_ms (t + p + (int n + 1) * p)) d True])"
    by (simp only: Suc.IH)
  also have "\<dots> = ticks (Suc n) t p d @
      [Tick (at_ms (t + (int (Suc n) + 1) * p)) (at_ms (t + (int (Suc n) + 1) * p)) d True]"
    by (simp add: algebra_simps)
  finally show ?case .
qed

text \<open>
  A tick of a running session whose times are whole milliseconds: the subtractions are
  exact.
\<close>

lemma elapsed_int:
  assumes "\<bar>epoch_ms now - t\<bar> \<le> 2 ^ 53"
  shows "js_sub (Date_now now) (Fin (of_int t)) = Fin (of_int (epoch_ms now - t))"
  using round_double_of_int [OF assms] by (simp add: Date_now_def)

lemma onTick_continue:
  assumes "running s" "remainingMs s = Fin (of_int r)" "lastTickTime s = Fin (of_int t)"
    and "\<bar>epoch_ms now - t\<bar> \<le> 2 ^ 53" "\<bar>r - (epoch_ms now - t)\<bar> \<le> 2 ^ 53"
    and "0 < r - (epoch_ms now - t)"
  shows "running (onTick now nowFinish today ok s)"
    and "remainingMs (onTick now nowFinish today ok s) = Fin (of_int (r - (epoch_ms now - t)))"
    and "lastTickTime (onTick now nowFinish today ok s) = Fin (of_int (epoch_ms now))"
    and "statsManager (onTick now nowFinish today ok s) = statsManager s"
proof -
  have sub: "js_sub (Fin (of_int r)) (Fin (of_int (epoch_ms now - t))) =
             Fin (of_int (r - (epoch_ms now - t)))"
    using round_double_of_int [OF assms(5)] by simp
  have pos: "\<not> js_le (Fin (of_int (r - (epoch_ms now - t)))) (Fin 0)"
    using assms(6) by simp
  show "running (onTick now nowFinish today ok s)"
    and "remainingMs (onTick now nowFinish today ok s) = Fin (of_int (r - (epoch_ms now - t)))"
    and "lastTickTime (onTick now nowFinish today ok s) = Fin (of_int (epoch_ms now))"
    and "statsManager (onTick now nowFinish today ok s) = statsManager s"
    using assms(1) pos
    by (simp_all add: onTick_def Let_def assms(2,3) elapsed_int [OF assms(4)] sub
        del: js_sub_Fin of_int_diff)
       (simp add: Date_now_def)
qed

lemma onTick_finish:
  assumes "running s" "remainingMs s = Fin (of_int r)" "lastTickTime s = Fin (of_int t)"
    and "\<bar>epoch_ms now - t\<bar> \<le> 2 ^ 53" "\<bar>r - (epoch_ms now - t)\<bar> \<le> 2 ^ 53"
    and "r - (epoch_ms now - t) \<le> 0"
  shows "\<not> running (onTick now nowFinish today ok s)"
    and "remainingMs (onTick now nowFinish today ok s) = Fin 0"
    and "statsManager (onTick now nowFinish today ok s) =
         fst (addFocusedMilliseconds
               (js_max (Fin 0)
                  (js_add (js_sub (Date_now nowFinish) (Date_now now)) TICK_INTERVAL_MS))
               today ok (statsManager s))"
proof -
  have sub: "js_sub (Fin (of_int r)) (Fin (of_int (epoch_ms now - t))) =
             Fin (of_int (r - (epoch_ms now - t)))"
    using round_double_of_int [OF assms(5)] by simp
  have over: "js_le (js_sub (remainingMs s) (js_sub (Date_now now) (lastTickTime s))) (Fin 0)"
    using assms(6)
    by (simp add: assms(2,3) elapsed_int [OF assms(4)] sub del: js_sub_Fin of_int_diff)
  show "\<not> running (onTick now nowFinish today ok s)"
    using assms(1) over by (simp add: onTick_def Let_def)
  show "remainingMs (onTick now nowFinish today ok s) = Fin 0"
    using over by (simp add: onTick_running [OF assms(1)])
  show "statsManager (onTick now nowFinish today ok s) =
         fst (addFocusedMilliseconds
               (js_max (Fin 0)
                  (js_add (js_sub (Date_now nowFinish) (Date_now now)) TICK_INTERVAL_MS))
               today ok (statsManager s))"
    by (rule onTick_finish_statsManager [OF assms(1) over])
qed

text \<open>
  While the ticks delivered so far leave time on the clock, the session keeps running,
  the remaining time is the requested one less the time delivered, and the statistics
  are untouched.
\<close>

lemma run_ticks_running:
  assumes "running s" "remainingMs s = Fin (of_int r)" "lastTickTime s = Fin (of_int t)"
    and "0 \<le> p" "0 \<le> t" "t + int n * p \<le> 8640000000000000" "r \<le> 2 ^ 53"
    and "int n * p < r"
  shows "running (run (ticks n t p d) s) \<and>
         remainingMs (run (ticks n t p d) s) = Fin (of_int (r - int n * p)) \<and>
         lastTickTime (run (ticks n t p d) s) = Fin (of_int (t + int n * p)) \<and>
         statsManager (run (ticks n t p d) s) = statsManager s"
  using assms
proof (induction n arbitrary: s r t)
  case 0
  then show ?case by simp
next
  case (Suc n)
  let ?now = "at_ms (t + p)"
  let ?s1 = "onTick ?now ?now d True s"
  have np: "0 \<le> int n * p"
    using Suc.prems(4) by simp
  have split: "int (Suc n) * p = int n * p + p"
    by (simp add: algebra_simps)
  have "t + p \<le> 8640000000000000"
    using Suc.prems(6) np split by linarith
  then have now: "epoch_ms ?now = t + p"
    using Suc.prems(4,5) by (intro epoch_ms_at_ms) linarith+
  have p53: "p \<le> 2 ^ 53" and rp: "0 < r - p" and left: "int n * p < r - p"
    using Suc.prems(7,8) np split by linarith+
  have c1: "\<bar>epoch_ms ?now - t\<bar> \<le> 2 ^ 53"
    using p53 Suc.prems(4) by (simp add: now)
  have c2: "\<bar>r - (epoch_ms ?now - t)\<bar> \<le> 2 ^ 53"
    using rp Suc.prems(4,7) by (simp add: now)
  have c3: "0 < r - (epoch_ms ?now - t)"
    using rp by (simp add: now)
  note tick = onTick_continue [OF Suc.prems(1-3) c1 c2 c3, of ?now d True]
  have r1: "remainingMs ?s1 = Fin (of_int (r - p))"
    using tick(2) by (simp add: now)
  have t1: "lastTickTime ?s1 = Fin (of_int (t + p))"
    using tick(3) by (simp add: now)
  have b1: "0 \<le> t + p" "t + p + int n * p \<le> 8640000000000000" "r - p \<le> 2 ^ 53"
    using Suc.prems(4-7) split by linarith+
  have "running (run (ticks n (t + p) p d) ?s1) \<and>
        remainingMs (run (ticks n (t + p) p d) ?s1) = Fin (of_int (r - p - int n * p)) \<and>
        lastTickTime (run (ticks n (t + p) p d) ?s1) = Fin (of_int (t + p + int n * p)) \<and>
        statsManager (run (ticks n (t + p) p d) ?s1) = statsManager ?s1"
    by (rule Suc.IH [OF tick(1) r1 t1 Suc.prems(4) b1(1) b1(2) b1(3) left])
  then show ?case
    using tick(4) by (simp add: algebra_simps)
qed

section \<open>The key of a day\<close>

lemma digit_char_inj:
  assumes "a < 10" "b < 10" "digit_char a = digit_char b"
  shows "a = b"
proof -
  have "distinct ''0123456789''"
    by simp
  then show ?thesis
    using assms nth_eq_iff_index_eq [of "''0123456789''" a b]
    by (simp add: digit_char_def)
qed

lemma digits_eq: "a div 10 = b div 10 \<Longrightarrow> a mod 10 = b mod 10 \<Longrightarrow> a = b" for a b :: nat
  by (metis div_mult_mod_eq)

lemma digit_char_zero: "digit_char 0 = CHR ''0''"
  by (simp add: digit_char_def)

lemma String_nat_1: "n < 10 \<Longrightarrow> String_nat n = [digit_char n]"
  unfolding String_nat_def by (subst digits_acc.simps) simp

lemma String_nat_2:
  assumes "10 \<le> n" "n < 100"
  shows "String_nat n = [digit_char (n div 10), digit_char (n mod 10)]"
proof -
  have a: "\<not> n < 10" "n div 10 < 10"
    using assms by simp_all
  show ?thesis
    unfolding String_nat_def
    by (subst digits_acc.simps, simp only: a if_False,
        subst digits_acc.simps, simp only: a if_True)
qed

lemma String_nat_4:
  assumes "1000 \<le> n" "n < 10000"
  shows "String_nat n =
    [digit_char (n div 1000), digit_char (n div 100 mod 10), digit_char (n div 10 mod 10),
     digit_char (n mod 10)]"
proof -
  have a: "\<not> n < 10" "\<not> n div 10 < 10" "\<not> n div 10 div 10 < 10" "n div 10 div 10 div 10 < 10"
    using assms by simp_all
  have b: "n div 10 div 10 div 10 = n div 1000" "n div 10 div 10 mod 10 = n div 100 mod 10"
    by (simp_all add: div_mult2_eq [symmetric])
  have c: "n div 1000 < 10"
    using assms by simp
  show ?thesis
    unfolding String_nat_def
    by (subst digits_acc.simps, simp only: a if_False,
        subst digits_acc.simps, simp only: a if_False,
        subst digits_acc.simps, simp only: a if_False,
        subst digits_acc.simps, simp only: b c if_True)
qed

text \<open>A number below 100 is padded to exactly two digits.\<close>

lemma pad2: "n < 100 \<Longrightarrow> padStart (String_nat n) 2 = [digit_char (n div 10), digit_char (n mod 10)]"
  by (cases "n < 10")
     (simp_all add: padStart_def String_nat_1 String_nat_2 digit_char_zero)

text \<open>The key of a valid date is its year, month and day as \<open>YYYY-MM-DD\<close>.\<close>

lemma getTodayKey_format:
  assumes "valid_date d"
  shows "getTodayKey d =
    [digit_char (nat (fullYear d) div 1000), digit_char (nat (fullYear d) div 100 mod 10),
     digit_char (nat (fullYear d) div 10 mod 10), digit_char (nat (fullYear d) mod 10),
     CHR ''-'',
     digit_char ((month d + 1) div 10), digit_char ((month d + 1) mod 10),
     CHR ''-'',
     digit_char (date d div 10), digit_char (date d mod 10)]"
proof -
  have n: "0 \<le> fullYear d" "1000 \<le> nat (fullYear d)" "nat (fullYear d) < 10000"
    using assms unfolding valid_date_def by linarith+
  have y: "String_int (fullYear d) =
    [digit_char (nat (fullYear d) div 1000), digit_char (nat (fullYear d) div 100 mod 10),
     digit_char (nat (fullYear d) div 10 mod 10), digit_char (nat (fullYear d) mod 10)]"
    using n(1) by (simp add: String_int_def String_nat_4 [OF n(2,3)])
  have small: "month d + 1 < 100" "date d < 100"
    using assms unfolding valid_date_def by linarith+
  have m: "padStart (String_nat (month d + 1)) 2 =
           [digit_char ((month d + 1) div 10), digit_char ((month d + 1) mod 10)]"
    by (rule pad2 [OF small(1)])
  have dd: "padStart (String_nat (date d)) 2 =
           [digit_char (date d div 10), digit_char (date d mod 10)]"
    by (rule pad2 [OF small(2)])
  show ?thesis
    unfolding getTodayKey_def Let_def y m dd by simp
qed

text \<open>Different valid dates have different keys.\<close>

lemma getTodayKey_inj:
  assumes "valid_date d" "valid_date e" "getTodayKey d = getTodayKey e"
  shows "d = e"
proof -
  define y where "y = nat (fullYear d)"
  define z where "z = nat (fullYear e)"
  have yz: "1000 \<le> y" "y < 10000" "1000 \<le> z" "z < 10000"
    using assms(1,2) unfolding valid_date_def y_def z_def by linarith+
  have md: "month d < 12" "month e < 12" "date d \<le> 31" "date e \<le> 31"
    using assms(1,2) by (simp_all add: valid_date_def)
  from assms(3) have eqs:
    "digit_char (y div 1000) = digit_char (z div 1000)"
    "digit_char (y div 100 mod 10) = digit_char (z div 100 mod 10)"
    "digit_char (y div 10 mod 10) = digit_char (z div 10 mod 10)"
    "digit_char (y mod 10) = digit_char (z mod 10)"
    "digit_char ((month d + 1) div 10) = digit_char ((month e + 1) div 10)"
    "digit_char ((month d + 1) mod 10) = digit_char ((month e + 1) mod 10)"
    "digit_char (date d div 10) = digit_char (date e div 10)"
    "digit_char (date d mod 10) = digit_char (date e mod 10)"
    unfolding getTodayKey_format [OF assms(1)] getTodayKey_format [OF assms(2)] y_def z_def
    by simp_all
  have d4: "y div 1000 = z div 1000" and d3: "y div 100 mod 10 = z div 100 mod 10"
    and d2: "y div 10 mod 10 = z div 10 mod 10" and d1: "y mod 10 = z mod 10"
    using yz eqs(1-4) by (auto intro!: digit_char_inj)
  have "y div 100 div 10 = z div 100 div 10"
    using d4 by (simp add: div_mult2_eq [symmetric])
  then have h: "y div 100 = z div 100"
    using d3 by (rule digits_eq)
  have "y div 10 div 10 = z div 10 div 10"
    using h by (simp add: div_mult2_eq [symmetric])
  then have "y div 10 = z div 10"
    using d2 by (rule digits_eq)
  then have "y = z"
    using d1 by (rule digits_eq)
  then have year: "fullYear d = fullYear e"
    using assms(1,2) unfolding valid_date_def y_def z_def by linarith
  have "(month d + 1) div 10 = (month e + 1) div 10" "(month d + 1) mod 10 = (month e + 1) mod 10"
    using md eqs(5,6) by (auto intro!: digit_char_inj)
  then have "month d + 1 = month e + 1"
    by (rule digits_eq)
  then have mon: "month d = month e"
    by simp
  have "date d div 10 = date e div 10" "date d mod 10 = date e mod 10"
    using md eqs(7,8) by (auto intro!: digit_char_inj)
  then have day: "date d = date e"
    by (rule digits_eq)
  show ?thesis
    using year mon day by simp
qed

section \<open>A started session\<close>

lemma start_fields:
  assumes "\<not> js_le (minutesToMilliseconds minutes) (Fin 0)"
  shows "running (startNewSession minutes now s)"
    and "remainingMs (startNewSession minutes now s) = minutesToMilliseconds minutes"
    and "lastTickTime (startNewSession minutes now s) = Date_now now"
    and "timer (startNewSession minutes now s) = Some (next_handle s)"
    and "intervals (startNewSession minutes now s) =
           insert (next_handle s) (intervals s - set_option (timer s))"
    and "next_handle (startNewSession minutes now s) = Suc (next_handle s)"
    and "statsManager (startNewSession minutes now s) = statsManager s"
  using assms
  by (simp_all add: startNewSession_def setInterval_def stopTimerInternal_def Let_def
      split: option.split)

lemma minutes_one: "minutesToMilliseconds (Fin 1) = Fin 60000"
  using minutes_whole [of 1] by simp

text \<open>A one-minute session started at clock reading 0.\<close>

lemma started_one:
  "running (startNewSession (Fin 1) (at_ms 0) (initial raw))"
  "remainingMs (startNewSession (Fin 1) (at_ms 0) (initial raw)) = Fin 60000"
  "lastTickTime (startNewSession (Fin 1) (at_ms 0) (initial raw)) = Fin 0"
  "timer (startNewSession (Fin 1) (at_ms 0) (initial raw)) = Some 0"
  "intervals (startNewSession (Fin 1) (at_ms 0) (initial raw)) = {0}"
  "next_handle (startNewSession (Fin 1) (at_ms 0) (initial raw)) = 1"
  "statsManager (startNewSession (Fin 1) (at_ms 0) (initial raw)) =
     \<lparr>stats = loadStats raw, updates = []\<rparr>"
proof -
  have acc: "\<not> js_le (minutesToMilliseconds (Fin 1)) (Fin 0)"
    by (simp add: minutes_one)
  note f = start_fields [OF acc, of "at_ms 0" "initial raw"]
  show "running (startNewSession (Fin 1) (at_ms 0) (initial raw))"
    by (rule f(1))
  show "remainingMs (startNewSession (Fin 1) (at_ms 0) (initial raw)) = Fin 60000"
    using f(2) by (simp add: minutes_one)
  show "lastTickTime (startNewSession (Fin 1) (at_ms 0) (initial raw)) = Fin 0"
    using f(3) by (simp add: Date_now_def at_ms.rep_eq)
  show "timer (startNewSession (Fin 1) (at_ms 0) (initial raw)) = Some 0"
    using f(4) by (simp add: initial_def)
  show "intervals (startNewSession (Fin 1) (at_ms 0) (initial raw)) = {0}"
    using f(5) by (simp add: initial_def)
  show "next_handle (startNewSession (Fin 1) (at_ms 0) (initial raw)) = 1"
    using f(6) by (simp add: initial_def)
  show "statsManager (startNewSession (Fin 1) (at_ms 0) (initial raw)) =
     \<lparr>stats = loadStats raw, updates = []\<rparr>"
    using f(7) by (simp add: initial_def)
qed

lemma loadStats_undefined [simp]: "loadStats JUndefined = (Plain, [])"
  by (simp add: loadStats_def)

text \<open>
  A one-minute session with a tick every second: it still runs after 59 ticks, and the
  60th tick finishes it and hands 1000 milliseconds to the statistics.
\<close>

lemma one_minute_run:
  "running (run (Start (Fin 1) (at_ms 0) # ticks 59 0 1000 d) (initial raw))"
  "remainingMs (run (Start (Fin 1) (at_ms 0) # ticks 59 0 1000 d) (initial raw)) = Fin 1000"
  "statsManager (run (Start (Fin 1) (at_ms 0) # ticks 59 0 1000 d) (initial raw)) =
     \<lparr>stats = loadStats raw, updates = []\<rparr>"
  "\<not> running (run (Start (Fin 1) (at_ms 0) # ticks 60 0 1000 d) (initial raw))"
  "remainingMs (run (Start (Fin 1) (at_ms 0) # ticks 60 0 1000 d) (initial raw)) = Fin 0"
  "statsManager (run (Start (Fin 1) (at_ms 0) # ticks 60 0 1000 d) (initial raw)) =
     fst (addFocusedMilliseconds (Fin 1000) d True \<lparr>stats = loadStats raw, updates = []\<rparr>)"
proof -
  define s0 where "s0 = startNewSession (Fin 1) (at_ms 0) (initial raw)"
  define s59 where "s59 = run (ticks 59 0 1000 d) s0"
  define s60 where "s60 = run (ticks 60 0 1000 d) s0"
  have start: "running s0" "remainingMs s0 = Fin (of_int 60000)" "lastTickTime s0 = Fin (of_int 0)"
    and st0: "statsManager s0 = \<lparr>stats = loadStats raw, updates = []\<rparr>"
    by (simp_all add: s0_def started_one)
  have "running s59 \<and> remainingMs s59 = Fin (of_int (60000 - int 59 * 1000)) \<and>
        lastTickTime s59 = Fin (of_int (0 + int 59 * 1000)) \<and> statsManager s59 = statsManager s0"
    unfolding s59_def by (rule run_ticks_running [OF start]) simp_all
  then have before: "running s59" "remainingMs s59 = Fin (of_int 1000)"
    "lastTickTime s59 = Fin (of_int 59000)"
    and st59: "statsManager s59 = \<lparr>stats = loadStats raw, updates = []\<rparr>"
    by (simp_all add: st0)
  have now: "epoch_ms (at_ms 60000) = 60000"
    by (simp add: at_ms.rep_eq)
  have last: "s60 = onTick (at_ms 60000) (at_ms 60000) d True s59"
    unfolding s60_def s59_def
    using ticks_snoc [of 59 0 1000 d] by (simp add: run_append)
  note fin = onTick_finish [OF before, of "at_ms 60000" "at_ms 60000" d True]
  have spent: "js_max (Fin 0)
      (js_add (js_sub (Date_now (at_ms 60000)) (Date_now (at_ms 60000))) TICK_INTERVAL_MS) =
      Fin 1000"
    by (simp add: Date_now_def TICK_INTERVAL_MS_def js_max_def)
  have stopped: "\<not> running s60" and zero: "remainingMs s60 = Fin 0"
    and added: "statsManager s60 =
      fst (addFocusedMilliseconds (Fin 1000) d True \<lparr>stats = loadStats raw, updates = []\<rparr>)"
    unfolding last using fin by (simp_all add: now spent st59)
  show "running (run (Start (Fin 1) (at_ms 0) # ticks 59 0 1000 d) (initial raw))"
    and "remainingMs (run (Start (Fin 1) (at_ms 0) # ticks 59 0 1000 d) (initial raw)) = Fin 1000"
    and "statsManager (run (Start (Fin 1) (at_ms 0) # ticks 59 0 1000 d) (initial raw)) =
     \<lparr>stats = loadStats raw, updates = []\<rparr>"
    using before(1,2) st59 by (simp_all add: s59_def s0_def)
  show "\<not> running (run (Start (Fin 1) (at_ms 0) # ticks 60 0 1000 d) (initial raw))"
    and "remainingMs (run (Start (Fin 1) (at_ms 0) # ticks 60 0 1000 d) (initial raw)) = Fin 0"
    and "statsManager (run (Start (Fin 1) (at_ms 0) # ticks 60 0 1000 d) (initial raw)) =
     fst (addFocusedMilliseconds (Fin 1000) d True \<lparr>stats = loadStats raw, updates = []\<rparr>)"
    using stopped zero added by (simp_all add: s60_def s0_def)
qed

lemma key_2024_01_05: "getTodayKey \<lparr>fullYear = 2024, month = 0, date = 5\<rparr> = ''2024-01-05''"
  by (simp add: getTodayKey_format valid_date_def digit_char_def)

section \<open>Starting a session\<close>

text \<open>
  Claim C2, as the specification states it, fails: the remaining time is not always
  minutes times 60000. For the double nearest to 0.13 the two rounded products
  \<open>(minutes * 60) * 1000\<close> leave 7800.000000000001 (7800 and one unit in the last place),
  while minutes times 60000 is less, exactly and rounded to double (7800).
\<close>

theorem startNewSession_rounding_counterexample:
  "is_double (1170935903116329 / 9007199254740992) \<and>
   (0::rat) < 1170935903116329 / 9007199254740992 \<and>
   remainingMs (startNewSession (Fin (1170935903116329 / 9007199254740992)) (at_ms 0)
                  (initial JUndefined)) = Fin (7800 + 1 / 2 ^ 40) \<and>
   remainingMs (startNewSession (Fin (1170935903116329 / 9007199254740992)) (at_ms 0)
                  (initial JUndefined)) \<noteq> Fin (1170935903116329 / 9007199254740992 * 60000) \<and>
   remainingMs (startNewSession (Fin (1170935903116329 / 9007199254740992)) (at_ms 0)
                  (initial JUndefined)) \<noteq>
     js_mul (Fin (1170935903116329 / 9007199254740992)) (Fin 60000)"
proof -
  have acc:
    "\<not> js_le (minutesToMilliseconds (Fin (1170935903116329 / 9007199254740992))) (Fin 0)"
    by (simp only: minutes_013) simp
  have rem: "remainingMs (startNewSession (Fin (1170935903116329 / 9007199254740992)) (at_ms 0)
                  (initial JUndefined)) = Fin (7800 + 1 / 2 ^ 40)"
    by (simp only: start_fields(2) [OF acc] minutes_013)
  have ne: "Fin (7800 + 1 / 2 ^ 40) \<noteq> Fin (1170935903116329 / 9007199254740992 * 60000)"
    "Fin (7800 + 1 / 2 ^ 40) \<noteq> Fin 7800"
    by simp_all
  have pos: "(0::rat) < 1170935903116329 / 9007199254740992"
    by simp
  show ?thesis
    using double_013 pos ne by (simp only: rem js_mul_013_60000 simp_thms)
qed

text \<open>
  Claim C2, amended. For every finite number of minutes greater than zero, and from any
  prior state, \<open>startNewSession\<close> leaves the remaining time at the double product
  \<open>(minutes * 60) * 1000\<close>, each product rounded to the nearest double; it is greater
  than zero, and it is minutes times 60000 for every whole number of minutes whose
  milliseconds do not exceed \<open>2 ^ 53\<close>. The running flag is set, the time of the last
  tick is the clock reading of the call, and the periodic tick is armed: the manager
  holds the fresh handle, and the armed intervals are the earlier ones without the
  manager's old interval, plus the fresh one.
\<close>

theorem startNewSession_valid:
  "is_double m \<Longrightarrow> 0 < m \<Longrightarrow>
   remainingMs (startNewSession (Fin m) now s) = js_mul (js_mul (Fin m) (Fin 60)) (Fin 1000) \<and>
   js_less (Fin 0) (remainingMs (startNewSession (Fin m) now s)) \<and>
   (\<forall>n. m = of_int n \<and> n * 60000 \<le> 2 ^ 53 \<longrightarrow>
      remainingMs (startNewSession (Fin m) now s) = Fin (of_int (n * 60000))) \<and>
   running (startNewSession (Fin m) now s) \<and>
   lastTickTime (startNewSession (Fin m) now s) = Fin (of_int (epoch_ms now)) \<and>
   timer (startNewSession (Fin m) now s) = Some (next_handle s) \<and>
   intervals (startNewSession (Fin m) now s) =
     insert (next_handle s) (intervals s - set_option (timer s))"
proof -
  assume m: "is_double m" "0 < m"
  have pos: "js_less (Fin 0) (minutesToMilliseconds (Fin m))"
    by (rule minutes_accepted [OF m])
  then have acc: "\<not> js_le (minutesToMilliseconds (Fin m)) (Fin 0)"
    by (rule js_less_not_le)
  note f = start_fields [OF acc, of now s]
  have whole: "remainingMs (startNewSession (Fin m) now s) = Fin (of_int (n * 60000))"
    if "m = of_int n \<and> n * 60000 \<le> 2 ^ 53" for n
  proof -
    from that m(2) have n: "0 \<le> n" "n * 60000 \<le> 2 ^ 53" and mm: "m = of_int n"
      by simp_all
    have "remainingMs (startNewSession (Fin m) now s) = minutesToMilliseconds (Fin m)"
      by (rule f(2))
    also have "\<dots> = minutesToMilliseconds (Fin (of_int n))"
      by (simp only: mm)
    also have "\<dots> = Fin (of_int (n * 60000))"
      by (rule minutes_whole [OF n])
    finally show ?thesis .
  qed
  have conv: "minutesToMilliseconds (Fin m) = js_mul (js_mul (Fin m) (Fin 60)) (Fin 1000)"
    by (simp add: minutesToMilliseconds_def)
  have r: "remainingMs (startNewSession (Fin m) now s) =
           js_mul (js_mul (Fin m) (Fin 60)) (Fin 1000)"
    by (simp only: f(2) conv)
  have p: "js_less (Fin 0) (remainingMs (startNewSession (Fin m) now s))"
    using pos by (simp only: f(2))
  show ?thesis
    using r p whole f(1) f(3) [unfolded Date_now_def] f(4) f(5) by blast
qed

text \<open>Twenty-five minutes, started at clock reading 7000 while another session runs.\<close>

theorem startNewSession_valid_witness:
  "is_double 25 \<and> (0::rat) < 25 \<and> (25::rat) = of_int 25 \<and> (25::int) * 60000 \<le> 2 ^ 53 \<and>
   remainingMs (startNewSession (Fin 25) (at_ms 7000)
      (startNewSession (Fin 1) (at_ms 0) (initial JUndefined))) = Fin 1500000 \<and>
   js_less (Fin 0) (remainingMs (startNewSession (Fin 25) (at_ms 7000)
      (startNewSession (Fin 1) (at_ms 0) (initial JUndefined)))) \<and>
   running (startNewSession (Fin 25) (at_ms 7000)
      (startNewSession (Fin 1) (at_ms 0) (initial JUndefined))) \<and>
   lastTickTime (startNewSession (Fin 25) (at_ms 7000)
      (startNewSession (Fin 1) (at_ms 0) (initial JUndefined))) = Fin 7000 \<and>
   timer (startNewSession (Fin 25) (at_ms 7000)
      (startNewSession (Fin 1) (at_ms 0) (initial JUndefined))) = Some 1 \<and>
   intervals (startNewSession (Fin 25) (at_ms 7000)
      (startNewSession (Fin 1) (at_ms 0) (initial JUndefined))) = {1}"
proof -
  have d: "is_double 25"
    using is_double_of_int [of 25] by simp
  have pos: "(0::rat) < 25"
    by simp
  have w: "(25::rat) = of_int 25 \<and> (25::int) * 60000 \<le> 2 ^ 53"
    by simp
  have t: "epoch_ms (at_ms 7000) = 7000"
    by (simp add: at_ms.rep_eq)
  note th = startNewSession_valid
      [OF d pos, of "at_ms 7000" "startNewSession (Fin 1) (at_ms 0) (initial JUndefined)"]
  have "remainingMs (startNewSession (Fin 25) (at_ms 7000)
      (startNewSession (Fin 1) (at_ms 0) (initial JUndefined))) = Fin (of_int (25 * 60000))"
    by (rule th [THEN conjunct2, THEN conjunct2, THEN conjunct1, rule_format, of 25, OF w])
  then have rem: "remainingMs (startNewSession (Fin 25) (at_ms 7000)
      (startNewSession (Fin 1) (at_ms 0) (initial JUndefined))) = Fin 1500000"
    by simp
  note rest = th [THEN conjunct2, THEN conjunct2, THEN conjunct2, THEN conjunct1]
    th [THEN conjunct2, THEN conjunct2, THEN conjunct2, THEN conjunct2, THEN conjunct1]
    th [THEN conjunct2, THEN conjunct2, THEN conjunct2, THEN conjunct2, THEN conjunct2,
        THEN conjunct1]
    th [THEN conjunct2, THEN conjunct2, THEN conjunct2, THEN conjunct2, THEN conjunct2,
        THEN conjunct2]
  show ?thesis
    using d rem rest by (simp add: started_one t)
qed

text \<open>
  Claim C3. For every number of minutes that is not finite or is at most zero,
  \<open>startNewSession\<close> changes nothing but the list of outputs, to which it adds the
  warning: the remaining time, the running flag, the time of the last tick, the timer
  handle, the armed intervals, the status bar and the statistics are as before.
\<close>

theorem startNewSession_invalid:
  "\<not> isFinite minutes \<or> js_le minutes (Fin 0) \<Longrightarrow>
   startNewSession minutes now s = s\<lparr>outputs := outputs s @ [WarnDurationNotPositive]\<rparr>"
  by (simp add: startNewSession_def minutes_rejected)

text \<open>NaN and minus five minutes, while a one-minute session runs.\<close>

theorem startNewSession_invalid_witness:
  "\<not> isFinite NaN \<and> js_le (Fin (- 5)) (Fin 0) \<and>
   startNewSession NaN (at_ms 7000) (run [Start (Fin 1) (at_ms 0)] (initial JUndefined)) =
     (run [Start (Fin 1) (at_ms 0)] (initial JUndefined))
       \<lparr>outputs := outputs (run [Start (Fin 1) (at_ms 0)] (initial JUndefined)) @
          [WarnDurationNotPositive]\<rparr> \<and>
   startNewSession (Fin (- 5)) (at_ms 7000) (run [Start (Fin 1) (at_ms 0)] (initial JUndefined)) =
     (run [Start (Fin 1) (at_ms 0)] (initial JUndefined))
       \<lparr>outputs := outputs (run [Start (Fin 1) (at_ms 0)] (initial JUndefined)) @
          [WarnDurationNotPositive]\<rparr>"
proof -
  have a: "\<not> isFinite NaN \<or> js_le NaN (Fin 0)"
    by simp
  have b: "\<not> isFinite (Fin (- 5)) \<or> js_le (Fin (- 5)) (Fin 0)"
    by simp
  show ?thesis
    using
      startNewSession_invalid
        [OF a, of "at_ms 7000" "run [Start (Fin 1) (at_ms 0)] (initial JUndefined)"]
      startNewSession_invalid
        [OF b, of "at_ms 7000" "run [Start (Fin 1) (at_ms 0)] (initial JUndefined)"]
    by simp
qed

section \<open>Ticks\<close>

text \<open>
  Claim C4. In every state the manager can reach from its construction, a tick of a
  running session whose clock reading is not before the stored time of the last tick
  leaves a remaining time that is at most the one before; and after any tick, running or
  not, the remaining time is not negative.
\<close>

theorem onTick_monotone:
  "(running (run es (initial raw)) \<and>
    js_le (lastTickTime (run es (initial raw))) (Fin (of_int (epoch_ms now))) \<longrightarrow>
      js_le (remainingMs (onTick now nowFinish today ok (run es (initial raw))))
            (remainingMs (run es (initial raw)))) \<and>
   js_le (Fin 0) (remainingMs (onTick now nowFinish today ok (run es (initial raw))))"
proof -
  define s where "s = run es (initial raw)"
  have ds: "double_state s"
    unfolding s_def by (rule double_state_run) (rule double_state_initial)
  have "(running s \<and> js_le (lastTickTime s) (Date_now now) \<longrightarrow>
           js_le (remainingMs (onTick now nowFinish today ok s)) (remainingMs s)) \<and>
        js_le (Fin 0) (remainingMs (onTick now nowFinish today ok s))"
  proof (cases "running s")
    case False
    then have same: "onTick now nowFinish today ok s = s"
      by (simp add: onTick_def)
    from ds show ?thesis
      by (cases rule: double_state_cases) (simp_all add: same False)
  next
    case True
    note after = onTick_running [OF True, of now nowFinish today ok]
    from ds show ?thesis
    proof (cases rule: double_state_cases)
      case (1 t)
      from elapsed_finite [OF 1(3), of now] obtain dl
        where dl: "js_sub (Date_now now) (Fin t) = Fin dl" by blast
      show ?thesis
        by (simp add: after 1 dl)
    next
      case (2 r t)
      from elapsed_finite [OF 2(5), of now] obtain dl
        where dl: "js_sub (Date_now now) (Fin t) = Fin dl" by blast
      have rem: "remainingMs (onTick now nowFinish today ok s) =
                 (if js_le (round_double (r - dl)) (Fin 0) then Fin 0 else round_double (r - dl))"
        by (simp add: after 2 dl)
      have nonneg: "js_le (Fin 0) (remainingMs (onTick now nowFinish today ok s))"
        unfolding rem by (cases "round_double (r - dl)") simp_all
      have mono: "js_le (remainingMs (onTick now nowFinish today ok s)) (remainingMs s)"
        if le: "js_le (lastTickTime s) (Date_now now)"
      proof -
        from le have "0 \<le> of_int (epoch_ms now) - t"
          by (simp add: 2 Date_now_def)
        then have "js_le (Fin 0) (round_double (of_int (epoch_ms now) - t))"
          by (rule round_double_nonneg)
        then have "0 \<le> dl"
          using dl by (simp add: Date_now_def)
        then have "js_le (round_double (r - dl)) (round_double r)"
          by (intro round_double_mono) simp
        then have "js_le (round_double (r - dl)) (Fin r)"
          using 2(3) by (simp add: is_double_def)
        then show ?thesis
          unfolding rem using 2(1,2) by simp
      qed
      show ?thesis
        using nonneg mono by blast
    qed
  qed
  then show ?thesis
    by (simp add: s_def Date_now_def)
qed

text \<open>The first tick of a one-minute session, one second after its start.\<close>

theorem onTick_monotone_witness:
  "running (run [Start (Fin 1) (at_ms 0)] (initial JUndefined)) \<and>
   js_le (lastTickTime (run [Start (Fin 1) (at_ms 0)] (initial JUndefined)))
         (Fin (of_int (epoch_ms (at_ms 1000)))) \<and>
   js_le (remainingMs (onTick (at_ms 1000) (at_ms 1000)
                        \<lparr>fullYear = 2024, month = 0, date = 5\<rparr> True
                        (run [Start (Fin 1) (at_ms 0)] (initial JUndefined))))
         (remainingMs (run [Start (Fin 1) (at_ms 0)] (initial JUndefined))) \<and>
   js_le (Fin 0) (remainingMs (onTick (at_ms 1000) (at_ms 1000)
                        \<lparr>fullYear = 2024, month = 0, date = 5\<rparr> True
                        (run [Start (Fin 1) (at_ms 0)] (initial JUndefined))))"
proof -
  have h: "running (run [Start (Fin 1) (at_ms 0)] (initial JUndefined)) \<and>
           js_le (lastTickTime (run [Start (Fin 1) (at_ms 0)] (initial JUndefined)))
                 (Fin (of_int (epoch_ms (at_ms 1000))))"
    by (simp add: started_one at_ms.rep_eq)
  show ?thesis
    using h onTick_monotone [of "[Start (Fin 1) (at_ms 0)]" JUndefined "at_ms 1000" "at_ms 1000"
        "\<lparr>fullYear = 2024, month = 0, date = 5\<rparr>" True]
    by blast
qed

text \<open>
  Claim C9. Whenever the timer is not running (never started, paused, stopped or
  finished), a call of \<open>_onTick\<close> returns the state it was given: the remaining time,
  the time of the last tick, the running flag and every other field are unchanged,
  whatever the clock shows.
\<close>

theorem onTick_not_running_noop:
  "\<not> running s \<Longrightarrow> onTick now nowFinish today updateOk s = s"
  by (simp add: onTick_def)

text \<open>A paused one-minute session, half a second in, ignores a tick five seconds later.\<close>

theorem onTick_not_running_noop_witness:
  "\<not> running (run [Start (Fin 1) (at_ms 0), Toggle (at_ms 500)] (initial JUndefined)) \<and>
   onTick (at_ms 5500) (at_ms 5500) \<lparr>fullYear = 2024, month = 0, date = 5\<rparr> True
     (run [Start (Fin 1) (at_ms 0), Toggle (at_ms 500)] (initial JUndefined)) =
   run [Start (Fin 1) (at_ms 0), Toggle (at_ms 500)] (initial JUndefined)"
proof -
  have paused:
    "\<not> running (run [Start (Fin 1) (at_ms 0), Toggle (at_ms 500)] (initial JUndefined))"
    by (simp add: togglePauseOrResume_def started_one)
  show ?thesis
    using paused onTick_not_running_noop [OF paused] by simp
qed

section \<open>Pause and resume\<close>

text \<open>
  Claim C8. From a running state whose remaining time is greater than zero, a first
  call of \<open>togglePauseOrResume\<close> pauses the timer and a second call, with no tick in
  between, makes it run again; the remaining time is the same after either call.
\<close>

theorem pause_resume_roundtrip:
  "running s \<Longrightarrow> js_less (Fin 0) (remainingMs s) \<Longrightarrow>
   \<not> running (togglePauseOrResume t1 s) \<and>
   remainingMs (togglePauseOrResume t1 s) = remainingMs s \<and>
   running (togglePauseOrResume t2 (togglePauseOrResume t1 s)) \<and>
   remainingMs (togglePauseOrResume t2 (togglePauseOrResume t1 s)) = remainingMs s"
  by (simp add: togglePauseOrResume_def js_less_not_le)

text \<open>A one-minute session paused after 20 seconds and resumed 40 seconds later.\<close>

theorem pause_resume_roundtrip_witness:
  "running (run [Start (Fin 1) (at_ms 0)] (initial JUndefined)) \<and>
   js_less (Fin 0) (remainingMs (run [Start (Fin 1) (at_ms 0)] (initial JUndefined))) \<and>
   running (run [Start (Fin 1) (at_ms 0), Toggle (at_ms 20000), Toggle (at_ms 60000)]
              (initial JUndefined)) \<and>
   remainingMs (run [Start (Fin 1) (at_ms 0), Toggle (at_ms 20000), Toggle (at_ms 60000)]
              (initial JUndefined)) = Fin 60000"
proof -
  have r: "running (run [Start (Fin 1) (at_ms 0)] (initial JUndefined))"
    by (simp add: started_one)
  have p: "js_less (Fin 0) (remainingMs (run [Start (Fin 1) (at_ms 0)] (initial JUndefined)))"
    by (simp add: started_one)
  have v: "remainingMs (run [Start (Fin 1) (at_ms 0)] (initial JUndefined)) = Fin 60000"
    by (simp add: started_one)
  show ?thesis
    using r p v pause_resume_roundtrip [OF r p, of "at_ms 20000" "at_ms 60000"]
    by simp
qed

section \<open>Stopping and the statistics\<close>

text \<open>
  Claim C7. \<open>stopSession\<close>, from any state and with either value of its flag, leaves
  the statistics manager as it was: no bucket changes and no write is issued. The same
  holds for starting, pausing, resuming and disposing; and a tick changes the statistics
  manager only when the session is running and that tick brings the remaining time to
  zero or below, which is the finish path.
\<close>

theorem stopSession_keeps_statistics:
  "statsManager (stopSession showMessage s) = statsManager s \<and>
   statsManager (startNewSession minutes now s) = statsManager s \<and>
   statsManager (togglePauseOrResume now s) = statsManager s \<and>
   statsManager (dispose s) = statsManager s \<and>
   (statsManager (onTick now nowFinish today updateOk s) \<noteq> statsManager s \<longrightarrow>
      running s \<and>
      js_le (js_sub (remainingMs s) (js_sub (Fin (of_int (epoch_ms now))) (lastTickTime s)))
            (Fin 0))"
  by (simp add: stopSession_def startNewSession_def togglePauseOrResume_def dispose_def
      onTick_def setInterval_def Let_def Date_now_def)

text \<open>
  A one-minute session stopped after 30 seconds has added nothing; the tick at 60
  seconds of a session that was not stopped does change the statistics.
\<close>

theorem stopSession_keeps_statistics_witness:
  "statsManager (stopSession True (run (Start (Fin 1) (at_ms 0) #
        ticks 30 0 1000 \<lparr>fullYear = 2024, month = 0, date = 5\<rparr>) (initial JUndefined))) =
     statsManager (run (Start (Fin 1) (at_ms 0) #
        ticks 30 0 1000 \<lparr>fullYear = 2024, month = 0, date = 5\<rparr>) (initial JUndefined)) \<and>
   statsManager (onTick (at_ms 60000) (at_ms 60000) \<lparr>fullYear = 2024, month = 0, date = 5\<rparr> True
        (run [Start (Fin 1) (at_ms 0)] (initial JUndefined))) \<noteq>
     statsManager (run [Start (Fin 1) (at_ms 0)] (initial JUndefined)) \<and>
   running (run [Start (Fin 1) (at_ms 0)] (initial JUndefined)) \<and>
   js_le (js_sub (remainingMs (run [Start (Fin 1) (at_ms 0)] (initial JUndefined)))
           (js_sub (Fin (of_int (epoch_ms (at_ms 60000))))
              (lastTickTime (run [Start (Fin 1) (at_ms 0)] (initial JUndefined)))))
         (Fin 0)"
proof -
  define s where "s = run [Start (Fin 1) (at_ms 0)] (initial JUndefined)"
  have s: "running s" "remainingMs s = Fin (of_int 60000)" "lastTickTime s = Fin (of_int 0)"
    "statsManager s = \<lparr>stats = (Plain, []), updates = []\<rparr>"
    by (simp_all add: s_def started_one)
  have now: "epoch_ms (at_ms 60000) = 60000"
    by (simp add: at_ms.rep_eq)
  have "statsManager (onTick (at_ms 60000) (at_ms 60000)
          \<lparr>fullYear = 2024, month = 0, date = 5\<rparr> True s) =
        fst (addFocusedMilliseconds
              (js_max (Fin 0)
                 (js_add (js_sub (Date_now (at_ms 60000)) (Date_now (at_ms 60000)))
                    TICK_INTERVAL_MS))
              \<lparr>fullYear = 2024, month = 0, date = 5\<rparr> True (statsManager s))"
    by (rule onTick_finish(3) [OF s(1-3)]) (simp_all add: now)
  then have "updates (statsManager (onTick (at_ms 60000) (at_ms 60000)
          \<lparr>fullYear = 2024, month = 0, date = 5\<rparr> True s)) \<noteq> updates (statsManager s)"
    by (simp add: Date_now_def now TICK_INTERVAL_MS_def js_max_def add_accepted)
  then have changed:
    "statsManager (onTick (at_ms 60000) (at_ms 60000)
          \<lparr>fullYear = 2024, month = 0, date = 5\<rparr> True s) \<noteq> statsManager s"
    by auto
  show ?thesis
    using changed
      stopSession_keeps_statistics [of True "run (Start (Fin 1) (at_ms 0) #
        ticks 30 0 1000 \<lparr>fullYear = 2024, month = 0, date = 5\<rparr>) (initial JUndefined)"]
      stopSession_keeps_statistics [of _ s _ "at_ms 60000" "at_ms 60000"
        "\<lparr>fullYear = 2024, month = 0, date = 5\<rparr>" True]
    unfolding s_def by blast
qed

section \<open>Adding focused time\<close>

text \<open>
  Claim C10. For every finite delta greater than zero, \<open>addFocusedMilliseconds\<close>
  changes today's bucket only: every other date key keeps the value it had, or stays
  absent, the keys of the object are the earlier ones and today's, and the object keeps
  its kind.
\<close>

theorem addFocusedMilliseconds_only_today:
  "isFinite d \<Longrightarrow> js_less (Fin 0) d \<Longrightarrow>
   (\<forall>key. key \<noteq> getTodayKey today \<longrightarrow>
      own_props (stats (fst (addFocusedMilliseconds d today ok sm))) key =
      own_props (stats sm) key) \<and>
   dom (own_props (stats (fst (addFocusedMilliseconds d today ok sm)))) =
     insert (getTodayKey today) (dom (own_props (stats sm))) \<and>
   fst (stats (fst (addFocusedMilliseconds d today ok sm))) = fst (stats sm)"
  by (simp add: add_accepted) (simp add: set_prop_def)

text \<open>
  One minute added on 5 January 2024 to a store that holds five seconds for the day
  before: that bucket keeps its five seconds, the day after stays absent.
\<close>

theorem addFocusedMilliseconds_only_today_witness:
  "isFinite (Fin 60000) \<and> js_less (Fin 0) (Fin 60000) \<and>
   ''2024-01-04'' \<noteq> getTodayKey \<lparr>fullYear = 2024, month = 0, date = 5\<rparr> \<and>
   ''2024-01-06'' \<noteq> getTodayKey \<lparr>fullYear = 2024, month = 0, date = 5\<rparr> \<and>
   own_props (stats (fst (addFocusedMilliseconds (Fin 60000)
            \<lparr>fullYear = 2024, month = 0, date = 5\<rparr> True
            \<lparr>stats = (Plain, [(''2024-01-04'', JNum (Fin 5000))]), updates = []\<rparr>)))
     ''2024-01-04'' = Some (JNum (Fin 5000)) \<and>
   own_props (stats (fst (addFocusedMilliseconds (Fin 60000)
            \<lparr>fullYear = 2024, month = 0, date = 5\<rparr> True
            \<lparr>stats = (Plain, [(''2024-01-04'', JNum (Fin 5000))]), updates = []\<rparr>)))
     ''2024-01-06'' = None \<and>
   dom (own_props (stats (fst (addFocusedMilliseconds (Fin 60000)
            \<lparr>fullYear = 2024, month = 0, date = 5\<rparr> True
            \<lparr>stats = (Plain, [(''2024-01-04'', JNum (Fin 5000))]), updates = []\<rparr>)))) =
     {''2024-01-05'', ''2024-01-04''}"
proof -
  have f: "isFinite (Fin 60000)"
    by simp
  have p: "js_less (Fin 0) (Fin 60000)"
    by simp
  note k = key_2024_01_05
  show ?thesis
    using f p k
      addFocusedMilliseconds_only_today [OF f p,
        of "\<lparr>fullYear = 2024, month = 0, date = 5\<rparr>" True
           "\<lparr>stats = (Plain, [(''2024-01-04'', JNum (Fin 5000))]), updates = []\<rparr>"]
    by (simp add: own_props_def)
qed

text \<open>
  Claim C5, as the specification states it, fails. With a finite positive delta the
  bucket does not always grow by the delta: a bucket that holds \<open>2 ^ 53\<close> stays at
  \<open>2 ^ 53\<close> when 1 is added, since the sum is rounded to double; and a bucket that holds
  a string, taken over from the persisted payload, becomes that string followed by the
  text of the delta.
\<close>

theorem addFocusedMilliseconds_counterexample:
  "isFinite (Fin 1) \<and> js_less (Fin 0) (Fin 1) \<and>
   getTodayMilliseconds \<lparr>fullYear = 2024, month = 0, date = 5\<rparr>
     \<lparr>stats = (Plain, [(''2024-01-05'', JNum (Fin 9007199254740992))]), updates = []\<rparr> =
     JNum (Fin 9007199254740992) \<and>
   getTodayMilliseconds \<lparr>fullYear = 2024, month = 0, date = 5\<rparr>
     (fst (addFocusedMilliseconds (Fin 1) \<lparr>fullYear = 2024, month = 0, date = 5\<rparr> True
        \<lparr>stats = (Plain, [(''2024-01-05'', JNum (Fin 9007199254740992))]), updates = []\<rparr>)) =
     JNum (Fin 9007199254740992) \<and>
   getTodayMilliseconds \<lparr>fullYear = 2024, month = 0, date = 5\<rparr>
     (fst (addFocusedMilliseconds (Fin 1000) \<lparr>fullYear = 2024, month = 0, date = 5\<rparr> True
        \<lparr>stats = (Plain, [(''2024-01-05'', JStr ''abc'')]), updates = []\<rparr>)) =
     JConcat (JStr ''abc'') (Fin 1000)"
  by (simp add: add_accepted getTodayMilliseconds_def bucket_or_zero_def get_prop_def
      own_props_def set_prop_def key_2024_01_05 js_truthy_def double_tie_2_53)

text \<open>
  Claim C5, amended. \<open>addFocusedMilliseconds\<close> with a delta that is not finite or is at
  most zero returns a fulfilled promise and the statistics manager unchanged: no bucket
  is touched and no write is issued. With a finite positive delta exactly one write is
  issued, the object it hands over is the one that already holds the addition, and the
  returned promise is the one of that write. When today's bucket is absent or holds a
  number, it becomes the double sum of its earlier value and the delta, an absent bucket
  and a bucket of 0 or NaN counting as zero; whenever today's value reads as a number,
  it reads as that number plus the delta afterwards. The sum is exact for whole
  milliseconds up to \<open>2 ^ 53\<close>, so two such additions on the same day add up in the one
  bucket of that day. The key of the bucket is the local date written \<open>YYYY-MM-DD\<close>,
  and an addition on another day goes to another key and leaves today's bucket as it
  was.
\<close>

theorem addFocusedMilliseconds_spec:
  "(\<not> isFinite d \<or> js_le d (Fin 0) \<longrightarrow> addFocusedMilliseconds d today ok sm = (sm, True)) \<and>
   (isFinite d \<and> js_less (Fin 0) d \<longrightarrow>
      updates (fst (addFocusedMilliseconds d today ok sm)) =
        updates sm @ [(STORAGE_KEY_STATS, stats (fst (addFocusedMilliseconds d today ok sm)))] \<and>
      snd (addFocusedMilliseconds d today ok sm) = ok \<and>
      (own_props (stats sm) (getTodayKey today) = None \<longrightarrow>
         own_props (stats (fst (addFocusedMilliseconds d today ok sm))) (getTodayKey today) =
           Some (JNum (js_add (Fin 0) d))) \<and>
      (\<forall>v. own_props (stats sm) (getTodayKey today) = Some (JNum v) \<longrightarrow>
         own_props (stats (fst (addFocusedMilliseconds d today ok sm))) (getTodayKey today) =
           Some (JNum (js_add (if js_truthy v then v else Fin 0) d))) \<and>
      (\<forall>p. getTodayMilliseconds today sm = JNum p \<longrightarrow>
         getTodayMilliseconds today (fst (addFocusedMilliseconds d today ok sm)) =
           JNum (js_add p d))) \<and>
   (\<forall>a b. 0 \<le> a \<and> 0 < b \<and> a + b \<le> 2 ^ 53 \<and>
          getTodayMilliseconds today sm = JNum (Fin (of_int a)) \<longrightarrow>
      getTodayMilliseconds today (fst (addFocusedMilliseconds (Fin (of_int b)) today ok sm)) =
        JNum (Fin (of_int (a + b)))) \<and>
   (\<forall>a b c. 0 \<le> a \<and> 0 < b \<and> 0 < c \<and> a + b + c \<le> 2 ^ 53 \<and>
          getTodayMilliseconds today sm = JNum (Fin (of_int a)) \<longrightarrow>
      getTodayMilliseconds today
        (fst (addFocusedMilliseconds (Fin (of_int c)) today ok2
           (fst (addFocusedMilliseconds (Fin (of_int b)) today ok1 sm)))) =
        JNum (Fin (of_int (a + b + c)))) \<and>
   (valid_date today \<longrightarrow>
      getTodayKey today =
        [digit_char (nat (fullYear today) div 1000), digit_char (nat (fullYear today) div 100 mod 10),
         digit_char (nat (fullYear today) div 10 mod 10), digit_char (nat (fullYear today) mod 10),
         CHR ''-'',
         digit_char ((month today + 1) div 10), digit_char ((month today + 1) mod 10),
         CHR ''-'',
         digit_char (date today div 10), digit_char (date today mod 10)]) \<and>
   (\<forall>other. valid_date today \<and> valid_date other \<and> other \<noteq> today \<longrightarrow>
      getTodayKey other \<noteq> getTodayKey today \<and>
      own_props (stats (fst (addFocusedMilliseconds d other ok sm))) (getTodayKey today) =
        own_props (stats sm) (getTodayKey today))"
proof -
  let ?key = "getTodayKey today"
  have rejected: "addFocusedMilliseconds d today ok sm = (sm, True)"
    if "\<not> isFinite d \<or> js_le d (Fin 0)"
    using that by (rule add_rejected)
  have written:
    "updates (fst (addFocusedMilliseconds d today ok sm)) =
       updates sm @ [(STORAGE_KEY_STATS, stats (fst (addFocusedMilliseconds d today ok sm)))]"
    "snd (addFocusedMilliseconds d today ok sm) = ok"
    if "isFinite d \<and> js_less (Fin 0) d"
    using that by (simp_all add: add_accepted)
  have absent:
    "own_props (stats (fst (addFocusedMilliseconds d today ok sm))) ?key =
       Some (JNum (js_add (Fin 0) d))"
    if "isFinite d \<and> js_less (Fin 0) d" "own_props (stats sm) ?key = None"
    using that by (simp add: add_accepted bucket_or_zero_def get_prop_def)
  have present:
    "own_props (stats (fst (addFocusedMilliseconds d today ok sm))) ?key =
       Some (JNum (js_add (if js_truthy v then v else Fin 0) d))"
    if "isFinite d \<and> js_less (Fin 0) d" "own_props (stats sm) ?key = Some (JNum v)" for v
    using that by (simp add: add_accepted bucket_or_zero_def get_prop_def)
  have reads: "getTodayMilliseconds today' (fst (addFocusedMilliseconds d' today' ok' sm')) =
                 JNum (js_add p d')"
    if "isFinite d' \<and> js_less (Fin 0) d'" "getTodayMilliseconds today' sm' = JNum p"
    for p d' today' ok' sm'
  proof -
    have "p \<noteq> NaN"
      using that(2)
      by (auto simp: getTodayMilliseconds_def bucket_or_zero_def Let_def js_truthy_def
          split: if_splits)
    with that show ?thesis
      by (intro today_after_add) (simp_all add: getTodayMilliseconds_def)
  qed
  have exact: "getTodayMilliseconds today' (fst (addFocusedMilliseconds (Fin (of_int b)) today' ok' sm')) =
                 JNum (Fin (of_int (a + b)))"
    if "0 \<le> a" "0 < b" "a + b \<le> 2 ^ 53" "getTodayMilliseconds today' sm' = JNum (Fin (of_int a))"
    for a b today' ok' sm'
  proof -
    have "\<bar>a + b\<bar> \<le> 2 ^ 53"
      using that(1-3) by simp
    then have "js_add (Fin (of_int a)) (Fin (of_int b)) = Fin (of_int (a + b))"
      using round_double_of_int [of "a + b"] by simp
    moreover have "isFinite (Fin (of_int b)) \<and> js_less (Fin 0) (Fin (of_int b))"
      using that(2) by simp
    ultimately show ?thesis
      using reads [OF _ that(4)] by simp
  qed
  have twice: "getTodayMilliseconds today
        (fst (addFocusedMilliseconds (Fin (of_int c)) today ok2
           (fst (addFocusedMilliseconds (Fin (of_int b)) today ok1 sm)))) =
        JNum (Fin (of_int (a + b + c)))"
    if "0 \<le> a \<and> 0 < b \<and> 0 < c \<and> a + b + c \<le> 2 ^ 53 \<and>
        getTodayMilliseconds today sm = JNum (Fin (of_int a))" for a b c
  proof -
    from that have h: "0 \<le> a" "0 < b" "0 < c" "a + b + c \<le> 2 ^ 53"
      "getTodayMilliseconds today sm = JNum (Fin (of_int a))"
      by simp_all
    have one: "getTodayMilliseconds today (fst (addFocusedMilliseconds (Fin (of_int b)) today ok1 sm)) =
               JNum (Fin (of_int (a + b)))"
      using h by (intro exact) simp_all
    show ?thesis
      using h by (intro exact [OF _ _ _ one]) simp_all
  qed
  have format: "getTodayKey today =
        [digit_char (nat (fullYear today) div 1000), digit_char (nat (fullYear today) div 100 mod 10),
         digit_char (nat (fullYear today) div 10 mod 10), digit_char (nat (fullYear today) mod 10),
         CHR ''-'',
         digit_char ((month today + 1) div 10), digit_char ((month today + 1) mod 10),
         CHR ''-'',
         digit_char (date today div 10), digit_char (date today mod 10)]"
    if "valid_date today"
    using that by (rule getTodayKey_format)
  have other_day:
    "getTodayKey other \<noteq> getTodayKey today \<and>
     own_props (stats (fst (addFocusedMilliseconds d other ok sm))) ?key =
       own_props (stats sm) ?key"
    if "valid_date today \<and> valid_date other \<and> other \<noteq> today" for other
  proof -
    from that have ne: "getTodayKey other \<noteq> getTodayKey today"
      using getTodayKey_inj [of other today] by blast
    then show ?thesis
      by (cases "isFinite d \<and> js_less (Fin 0) d")
         (auto simp: add_accepted addFocusedMilliseconds_def Let_def saveStats_def)
  qed
  show ?thesis
    using rejected written absent present reads exact twice format other_day
    by blast
qed

text \<open>
  On an empty store: NaN is ignored; one minute is written under \<open>2024-01-05\<close> and
  handed to the one write; twenty-five minutes more on the same day leave 1560000
  milliseconds in that bucket; a bucket of five seconds grows to 65 seconds; and
  6 January has another key.
\<close>

theorem addFocusedMilliseconds_spec_witness:
  "addFocusedMilliseconds NaN \<lparr>fullYear = 2024, month = 0, date = 5\<rparr> False
     \<lparr>stats = (Plain, []), updates = []\<rparr> = (\<lparr>stats = (Plain, []), updates = []\<rparr>, True) \<and>
   own_props (stats (fst (addFocusedMilliseconds (Fin 60000)
       \<lparr>fullYear = 2024, month = 0, date = 5\<rparr> True \<lparr>stats = (Plain, []), updates = []\<rparr>)))
     ''2024-01-05'' = Some (JNum (Fin 60000)) \<and>
   updates (fst (addFocusedMilliseconds (Fin 60000)
       \<lparr>fullYear = 2024, month = 0, date = 5\<rparr> True \<lparr>stats = (Plain, []), updates = []\<rparr>)) =
     [(''focusSession.stats'', (Plain, [(''2024-01-05'', JNum (Fin 60000))]))] \<and>
   getTodayMilliseconds \<lparr>fullYear = 2024, month = 0, date = 5\<rparr>
     (fst (addFocusedMilliseconds (Fin 60000)
       \<lparr>fullYear = 2024, month = 0, date = 5\<rparr> True \<lparr>stats = (Plain, []), updates = []\<rparr>)) =
     JNum (Fin 60000) \<and>
   getTodayMilliseconds \<lparr>fullYear = 2024, month = 0, date = 5\<rparr>
     (fst (addFocusedMilliseconds (Fin 1500000) \<lparr>fullYear = 2024, month = 0, date = 5\<rparr> True
        (fst (addFocusedMilliseconds (Fin 60000) \<lparr>fullYear = 2024, month = 0, date = 5\<rparr> True
           \<lparr>stats = (Plain, []), updates = []\<rparr>)))) = JNum (Fin 1560000) \<and>
   own_props (stats (fst (addFocusedMilliseconds (Fin 60000)
       \<lparr>fullYear = 2024, month = 0, date = 5\<rparr> True
       \<lparr>stats = (Plain, [(''2024-01-05'', JNum (Fin 5000))]), updates = []\<rparr>)))
     ''2024-01-05'' = Some (JNum (Fin 65000)) \<and>
   valid_date \<lparr>fullYear = 2024, month = 0, date = 5\<rparr> \<and>
   getTodayKey \<lparr>fullYear = 2024, month = 0, date = 5\<rparr> = ''2024-01-05'' \<and>
   valid_date \<lparr>fullYear = 2024, month = 0, date = 6\<rparr> \<and>
   getTodayKey \<lparr>fullYear = 2024, month = 0, date = 6\<rparr> \<noteq>
     getTodayKey \<lparr>fullYear = 2024, month = 0, date = 5\<rparr>"
proof -
  define d5 where "d5 = \<lparr>fullYear = 2024, month = 0, date = 5\<rparr>"
  define d6 where "d6 = \<lparr>fullYear = 2024, month = 0, date = 6\<rparr>"
  define sm0 where "sm0 = \<lparr>stats = (Plain, []), updates = []\<rparr>"
  define sm1 where "sm1 = \<lparr>stats = (Plain, [(''2024-01-05'', JNum (Fin 5000))]), updates = []\<rparr>"
  have key: "getTodayKey d5 = ''2024-01-05''"
    unfolding d5_def by (rule key_2024_01_05)
  have bad: "\<not> isFinite NaN \<or> js_le NaN (Fin 0)"
    by simp
  have good: "isFinite (Fin 60000) \<and> js_less (Fin 0) (Fin 60000)"
    by simp
  have none: "own_props (stats sm0) (getTodayKey d5) = None"
    by (simp add: sm0_def own_props_def)
  have some: "own_props (stats sm1) (getTodayKey d5) = Some (JNum (Fin 5000))"
    by (simp add: sm1_def own_props_def key)
  have zero: "getTodayMilliseconds d5 sm0 = JNum (Fin 0)"
    by (simp add: getTodayMilliseconds_def bucket_or_zero_def get_prop_def sm0_def own_props_def)
  have ints: "(0::int) \<le> 0 \<and> (0::int) < 60000 \<and> (0::int) < 1500000 \<and>
              (0::int) + 60000 + 1500000 \<le> 2 ^ 53 \<and>
              getTodayMilliseconds d5 sm0 = JNum (Fin (of_int 0))"
    using zero by simp
  have one: "(0::int) \<le> 0 \<and> (0::int) < 60000 \<and> (0::int) + 60000 \<le> 2 ^ 53 \<and>
             getTodayMilliseconds d5 sm0 = JNum (Fin (of_int 0))"
    using zero by simp
  have valid: "valid_date d5" "valid_date d6" "d6 \<noteq> d5"
    by (simp_all add: valid_date_def d5_def d6_def)
  note th0 = addFocusedMilliseconds_spec [of NaN d5 False sm0 True True]
  note th1 = addFocusedMilliseconds_spec [of "Fin 60000" d5 True sm0 True True]
  note th2 = addFocusedMilliseconds_spec [of "Fin 60000" d5 True sm1 True True]
  have r0: "addFocusedMilliseconds NaN d5 False sm0 = (sm0, True)"
    by (rule th0 [THEN conjunct1, THEN mp, OF bad])
  note acc = th1 [THEN conjunct2, THEN conjunct1, THEN mp, OF good]
  have r1: "own_props (stats (fst (addFocusedMilliseconds (Fin 60000) d5 True sm0)))
              (getTodayKey d5) = Some (JNum (js_add (Fin 0) (Fin 60000)))"
    by (rule acc [THEN conjunct2, THEN conjunct2, THEN conjunct1, THEN mp, OF none])
  have r2: "updates (fst (addFocusedMilliseconds (Fin 60000) d5 True sm0)) =
            updates sm0 @
              [(STORAGE_KEY_STATS, stats (fst (addFocusedMilliseconds (Fin 60000) d5 True sm0)))]"
    by (rule acc [THEN conjunct1])
  have r3: "getTodayMilliseconds d5 (fst (addFocusedMilliseconds (Fin (of_int 60000)) d5 True sm0)) =
            JNum (Fin (of_int (0 + 60000)))"
    by (rule th1 [THEN conjunct2, THEN conjunct2, THEN conjunct1, rule_format, OF one])
  have r4: "getTodayMilliseconds d5
              (fst (addFocusedMilliseconds (Fin (of_int 1500000)) d5 True
                 (fst (addFocusedMilliseconds (Fin (of_int 60000)) d5 True sm0)))) =
            JNum (Fin (of_int (0 + 60000 + 1500000)))"
    by (rule th1 [THEN conjunct2, THEN conjunct2, THEN conjunct2, THEN conjunct1, rule_format,
          OF ints])
  have r5: "own_props (stats (fst (addFocusedMilliseconds (Fin 60000) d5 True sm1)))
              (getTodayKey d5) =
            Some (JNum (js_add (if js_truthy (Fin 5000) then Fin 5000 else Fin 0) (Fin 60000)))"
    by (rule th2 [THEN conjunct2, THEN conjunct1, THEN mp, OF good, THEN conjunct2,
          THEN conjunct2, THEN conjunct2, THEN conjunct1, rule_format, OF some])
  have r6: "getTodayKey d6 \<noteq> getTodayKey d5"
    using th1 [THEN conjunct2, THEN conjunct2, THEN conjunct2, THEN conjunct2, THEN conjunct2,
        rule_format, of d6] valid
    by blast
  have stored: "stats (fst (addFocusedMilliseconds (Fin 60000) d5 True sm0)) =
                (Plain, [(''2024-01-05'', JNum (Fin 60000))])"
    by (simp add: add_accepted sm0_def key bucket_or_zero_def get_prop_def own_props_def
        set_prop_def)
  show ?thesis
    using r0 r1 r2 r3 r4 r5 r6 valid(1,2) key
    by (simp add: d5_def [symmetric] d6_def [symmetric] sm0_def [symmetric] sm1_def [symmetric]
        stored STORAGE_KEY_STATS_def js_truthy_def)
       (simp add: sm0_def)
qed

section \<open>Loading the statistics\<close>

text \<open>
  Claim C6 says that a persisted payload that is not a well-formed mapping from date
  keys to numbers loads as the empty mapping. The code does not do so for objects: a
  persisted array, and a persisted object whose value is a string, are not mappings
  from date keys to numbers, yet \<open>_loadStats\<close> hands them over as the statistics. A
  one-minute session that then runs to its end leaves the string followed by the text
  of 1000 in today's bucket.
\<close>

theorem loadStats_keeps_malformed_payload:
  "\<not> spec_mapping_to_numbers (JObject Array [(''0'', JNum (Fin 1)), (''1'', JNum (Fin 2))]) \<and>
   loadStats (JObject Array [(''0'', JNum (Fin 1)), (''1'', JNum (Fin 2))]) =
     (Array, [(''0'', JNum (Fin 1)), (''1'', JNum (Fin 2))]) \<and>
   \<not> spec_mapping_to_numbers (JObject Plain [(''2024-01-05'', JStr ''abc'')]) \<and>
   loadStats (JObject Plain [(''2024-01-05'', JStr ''abc'')]) =
     (Plain, [(''2024-01-05'', JStr ''abc'')]) \<and>
   getTodayMilliseconds \<lparr>fullYear = 2024, month = 0, date = 5\<rparr>
     (statsManager (run (Start (Fin 1) (at_ms 0) #
         ticks 60 0 1000 \<lparr>fullYear = 2024, month = 0, date = 5\<rparr>)
         (initial (JObject Plain [(''2024-01-05'', JStr ''abc'')])))) =
     JConcat (JStr ''abc'') (Fin 1000)"
proof -
  have load: "loadStats (JObject Plain [(''2024-01-05'', JStr ''abc'')]) =
              (Plain, [(''2024-01-05'', JStr ''abc'')])"
    by (simp add: loadStats_def)
  have fin: "statsManager (run (Start (Fin 1) (at_ms 0) #
         ticks 60 0 1000 \<lparr>fullYear = 2024, month = 0, date = 5\<rparr>)
         (initial (JObject Plain [(''2024-01-05'', JStr ''abc'')]))) =
       fst (addFocusedMilliseconds (Fin 1000) \<lparr>fullYear = 2024, month = 0, date = 5\<rparr> True
         \<lparr>stats = loadStats (JObject Plain [(''2024-01-05'', JStr ''abc'')]), updates = []\<rparr>)"
    by (rule one_minute_run(6))
  have after: "getTodayMilliseconds \<lparr>fullYear = 2024, month = 0, date = 5\<rparr>
       (fst (addFocusedMilliseconds (Fin 1000) \<lparr>fullYear = 2024, month = 0, date = 5\<rparr> True
         \<lparr>stats = (Plain, [(''2024-01-05'', JStr ''abc'')]), updates = []\<rparr>)) =
       JConcat (JStr ''abc'') (Fin 1000)"
    by (simp add: add_accepted getTodayMilliseconds_def bucket_or_zero_def get_prop_def
        own_props_def set_prop_def key_2024_01_05 Let_def)
  show ?thesis
    using after unfolding fin load by (simp add: loadStats_def)
qed

text \<open>Neither of the two loads as the empty mapping.\<close>

theorem loadStats_keeps_malformed_payload_witness:
  "loadStats (JObject Array [(''0'', JNum (Fin 1)), (''1'', JNum (Fin 2))]) \<noteq> (Plain, []) \<and>
   loadStats (JObject Plain [(''2024-01-05'', JStr ''abc'')]) \<noteq> (Plain, [])"
  using loadStats_keeps_malformed_payload by simp

section \<open>Natural completion\<close>

text \<open>
  Claim C1 says that a session that runs to its end adds its requested length, within
  one tick interval, to today's statistics. The code does not: a one-minute session
  started at clock reading 0 on an empty store, with a tick every 1000 milliseconds, is
  still running with 1000 milliseconds left and nothing added after 59 ticks, and the
  60th tick finishes it and adds 1000 milliseconds, not 60000.
\<close>

theorem one_minute_session_adds_one_second:
  "running (run (Start (Fin 1) (at_ms 0) #
              ticks 59 0 1000 \<lparr>fullYear = 2024, month = 0, date = 5\<rparr>) (initial JUndefined)) \<and>
   remainingMs (run (Start (Fin 1) (at_ms 0) #
              ticks 59 0 1000 \<lparr>fullYear = 2024, month = 0, date = 5\<rparr>) (initial JUndefined)) =
     Fin 1000 \<and>
   getTodayMilliseconds \<lparr>fullYear = 2024, month = 0, date = 5\<rparr>
     (statsManager (run (Start (Fin 1) (at_ms 0) #
         ticks 59 0 1000 \<lparr>fullYear = 2024, month = 0, date = 5\<rparr>) (initial JUndefined))) =
     JNum (Fin 0) \<and>
   \<not> running (run (Start (Fin 1) (at_ms 0) #
              ticks 60 0 1000 \<lparr>fullYear = 2024, month = 0, date = 5\<rparr>) (initial JUndefined)) \<and>
   remainingMs (run (Start (Fin 1) (at_ms 0) #
              ticks 60 0 1000 \<lparr>fullYear = 2024, month = 0, date = 5\<rparr>) (initial JUndefined)) =
     Fin 0 \<and>
   getTodayMilliseconds \<lparr>fullYear = 2024, month = 0, date = 5\<rparr>
     (statsManager (run (Start (Fin 1) (at_ms 0) #
         ticks 60 0 1000 \<lparr>fullYear = 2024, month = 0, date = 5\<rparr>) (initial JUndefined))) =
     JNum (Fin 1000)"
proof -
  have before: "getTodayMilliseconds \<lparr>fullYear = 2024, month = 0, date = 5\<rparr>
                  \<lparr>stats = (Plain, []), updates = []\<rparr> = JNum (Fin 0)"
    by (simp add: getTodayMilliseconds_def bucket_or_zero_def get_prop_def own_props_def)
  have after: "getTodayMilliseconds \<lparr>fullYear = 2024, month = 0, date = 5\<rparr>
                 (fst (addFocusedMilliseconds (Fin 1000) \<lparr>fullYear = 2024, month = 0, date = 5\<rparr>
                    True \<lparr>stats = (Plain, []), updates = []\<rparr>)) = JNum (Fin 1000)"
    by (simp add: add_accepted getTodayMilliseconds_def bucket_or_zero_def get_prop_def
        own_props_def set_prop_def js_truthy_def)
  show ?thesis
    by (simp only: one_minute_run loadStats_undefined before after simp_thms)
qed

end
